theory Spec2Isabelle
  imports Complex_Main
begin

section \<open>Common data\<close>

text \<open>
  Exceptions of the Python program are values: a function that can raise returns
  \<open>py_error + 'a\<close>, with \<open>Inl\<close> for the exception that leaves the function.
  A handler \<^verbatim>\<open>except Exception\<close> is a case on the result.

  Python floats are modelled as real numbers with exact arithmetic (no rounding, no
  overflow, no infinities). Where pandas carries a missing value (NaN, \<^verbatim>\<open>pd.NA\<close>) the
  model carries \<open>None\<close> in a \<open>real option\<close>.

  The builtin \<^verbatim>\<open>float(s)\<close> on a string is a parameter \<open>fl\<close> of the functions that call
  it: \<open>fl s = Some x\<close> when the conversion yields the number \<open>x\<close>, \<open>None\<close> when it
  raises \<^verbatim>\<open>ValueError\<close>. The instance \<open>float_dec\<close> below is used at concrete inputs
  only: it reads the strings made of digits, optionally followed by a point and more
  digits, and none of those inputs is a number in another notation (sign, exponent,
  \<^verbatim>\<open>inf\<close>, \<^verbatim>\<open>nan\<close>).
\<close>

datatype py_error = ValueError | IndexError | OverflowError

definition digit_of :: "char \<Rightarrow> nat option" where
  "digit_of c =
     (let n = (of_char c :: nat) in if 48 \<le> n \<and> n \<le> 57 then Some (n - 48) else None)"

definition isdigit :: "char \<Rightarrow> bool" where
  "isdigit c = (digit_of c \<noteq> None)"

fun digits_val :: "nat \<Rightarrow> string \<Rightarrow> nat option" where
  "digits_val acc [] = Some acc"
| "digits_val acc (c # cs) =
     (case digit_of c of None \<Rightarrow> None | Some d \<Rightarrow> digits_val (10 * acc + d) cs)"

definition float_dec :: "string \<Rightarrow> real option" where
  "float_dec s =
     (let ip = takeWhile isdigit s; rest = dropWhile isdigit s in
      if ip = [] then None
      else case digits_val 0 ip of
        None \<Rightarrow> None
      | Some i \<Rightarrow>
          (case rest of
             [] \<Rightarrow> Some (real i)
           | c # fp \<Rightarrow>
               if c = CHR ''.'' then
                 (case digits_val 0 fp of
                    None \<Rightarrow> None
                  | Some f \<Rightarrow> Some (real i + real f / 10 ^ length fp))
               else None))"

section \<open>Dates: \<^verbatim>\<open>datetime.strptime(s, "%Y-%m-%d")\<close>\<close>

text \<open>
  A \<^verbatim>\<open>datetime\<close> at midnight is modelled by its proleptic Gregorian ordinal
  (\<^verbatim>\<open>date.toordinal()\<close>, day 1 is 0001-01-01), so that \<^verbatim>\<open>(a - b).days\<close> is the
  difference of two ordinals. The parser follows the format directives of CPython on
  ASCII input: \<^verbatim>\<open>%Y\<close> is exactly four digits, \<^verbatim>\<open>%m\<close> is \<^verbatim>\<open>1[0-2]|0[1-9]|[1-9]\<close>,
  \<^verbatim>\<open>%d\<close> is \<^verbatim>\<open>3[01]|[12]\d|0[1-9]|[1-9]| [1-9]\<close>, the whole string must be consumed,
  and a date that does not exist (year 0, 30 February) raises \<^verbatim>\<open>ValueError\<close>.
\<close>

definition is_leap :: "nat \<Rightarrow> bool" where
  "is_leap y = (y mod 4 = 0 \<and> (if y mod 100 = 0 then y mod 400 = 0 else True))"

definition days_in_month :: "nat \<Rightarrow> nat \<Rightarrow> nat" where
  "days_in_month y m =
     (if m = 2 then (if is_leap y then 29 else 28)
      else if m = 4 \<or> m = 6 \<or> m = 9 \<or> m = 11 then 30 else 31)"

definition days_before_year :: "nat \<Rightarrow> nat" where
  "days_before_year y = (let p = y - 1 in p * 365 + p div 4 - p div 100 + p div 400)"

definition days_before_month :: "nat \<Rightarrow> nat \<Rightarrow> nat" where
  "days_before_month y m = sum_list (map (days_in_month y) [1..<m])"

definition ymd2ord :: "nat \<Rightarrow> nat \<Rightarrow> nat \<Rightarrow> int" where
  "ymd2ord y m d = int (days_before_year y + days_before_month y m + d)"

definition parse_year :: "string \<Rightarrow> (nat \<times> string) option" where
  "parse_year s =
     (case s of
        a # b # c # d # rest \<Rightarrow>
          (case (digit_of a, digit_of b, digit_of c, digit_of d) of
             (Some a', Some b', Some c', Some d') \<Rightarrow>
               Some (1000 * a' + 100 * b' + 10 * c' + d', rest)
           | _ \<Rightarrow> None)
      | _ \<Rightarrow> None)"

definition one_digit :: "string \<Rightarrow> (nat \<times> string) option" where
  "one_digit s =
     (case s of
        a # rest \<Rightarrow>
          (case digit_of a of
             Some a' \<Rightarrow> if 1 \<le> a' then Some (a', rest) else None
           | None \<Rightarrow> None)
      | [] \<Rightarrow> None)"

definition two_digits :: "string \<Rightarrow> (nat \<times> nat \<times> string) option" where
  "two_digits s =
     (case s of
        a # b # rest \<Rightarrow>
          (case (digit_of a, digit_of b) of
             (Some a', Some b') \<Rightarrow> Some (a', b', rest)
           | _ \<Rightarrow> None)
      | _ \<Rightarrow> None)"

definition parse_month :: "string \<Rightarrow> (nat \<times> string) option" where
  "parse_month s =
     (case two_digits s of
        Some (a, b, rest) \<Rightarrow>
          if a = 1 \<and> b \<le> 2 then Some (10 + b, rest)
          else if a = 0 \<and> 1 \<le> b then Some (b, rest)
          else one_digit s
      | None \<Rightarrow> one_digit s)"

definition parse_day :: "string \<Rightarrow> (nat \<times> string) option" where
  "parse_day s =
     (case two_digits s of
        Some (a, b, rest) \<Rightarrow>
          if a = 3 \<and> b \<le> 1 then Some (30 + b, rest)
          else if a = 1 \<or> a = 2 then Some (10 * a + b, rest)
          else if a = 0 \<and> 1 \<le> b then Some (b, rest)
          else one_digit s
      | None \<Rightarrow>
          (case one_digit s of
             Some r \<Rightarrow> Some r
           | None \<Rightarrow>
               (case s of
                  c # rest \<Rightarrow> if c = CHR '' '' then one_digit rest else None
                | [] \<Rightarrow> None)))"

definition expect_dash :: "string \<Rightarrow> string option" where
  "expect_dash s = (case s of c # rest \<Rightarrow> if c = CHR ''-'' then Some rest else None | [] \<Rightarrow> None)"

definition strptime :: "string \<Rightarrow> py_error + int" where
  "strptime s =
     (case parse_year s of
        None \<Rightarrow> Inl ValueError
      | Some (y, s1) \<Rightarrow>
          (case expect_dash s1 of
             None \<Rightarrow> Inl ValueError
           | Some s2 \<Rightarrow>
               (case parse_month s2 of
                  None \<Rightarrow> Inl ValueError
                | Some (m, s3) \<Rightarrow>
                    (case expect_dash s3 of
                       None \<Rightarrow> Inl ValueError
                     | Some s4 \<Rightarrow>
                         (case parse_day s4 of
                            None \<Rightarrow> Inl ValueError
                          | Some (d, s5) \<Rightarrow>
                              if s5 \<noteq> [] then Inl ValueError
                              else if y = 0 \<or> days_in_month y m < d then Inl ValueError
                              else Inr (ymd2ord y m d))))))"

section \<open>Horizon Matcher: \<^verbatim>\<open>read_latest_from_csv\<close>\<close>

text \<open>
  The file is what \<^verbatim>\<open>csv.reader\<close> yields: a list of rows, each a list of fields.
  \<open>None\<close> is the file that does not exist.
\<close>

type_synonym row = "string list"

record change_summary =
  date :: string
  close :: real
  prev_close :: "real option"
  change_pct :: "real option"

definition duration_days :: "string \<Rightarrow> int" where
  "duration_days duration =
     (if duration = ''1d'' then 1
      else if duration = ''1w'' then 7
      else if duration = ''1m'' then 30
      else if duration = ''3m'' then 90
      else if duration = ''6m'' then 180
      else if duration = ''1y'' then 365
      else 1)"

text \<open>
  \<^verbatim>\<open>rows = [r for r in reader if r]\<close> and
  \<^verbatim>\<open>data_rows = [r for r in rows if r[0] and (len(r[0]) >= 4 and r[0][0].isdigit())]\<close>.
\<close>

definition looks_like_date :: "row \<Rightarrow> bool" where
  "looks_like_date r = (hd r \<noteq> [] \<and> 4 \<le> length (hd r) \<and> isdigit (hd (hd r)))"

definition data_rows :: "row list \<Rightarrow> row list" where
  "data_rows reader = filter looks_like_date (filter (\<lambda>r. r \<noteq> []) reader)"

text \<open>
  The scan for the row closest to the target date. The accumulator is the pair of the
  Python variables \<^verbatim>\<open>prev\<close> and \<^verbatim>\<open>prev_diff\<close> (both \<^verbatim>\<open>None\<close> or both set); a row whose
  date raises \<^verbatim>\<open>ValueError\<close> is skipped, and only a strictly smaller distance replaces
  the candidate.
\<close>

fun closest_loop :: "int \<Rightarrow> (row \<times> int) option \<Rightarrow> row list \<Rightarrow> (row \<times> int) option" where
  "closest_loop target_date acc [] = acc"
| "closest_loop target_date acc (r # rs) =
     (case strptime (hd r) of
        Inl e \<Rightarrow> closest_loop target_date acc rs
      | Inr d \<Rightarrow>
          (let diff = \<bar>d - target_date\<bar> in
           if (case acc of None \<Rightarrow> True | Some (p, prev_diff) \<Rightarrow> diff < prev_diff)
           then closest_loop target_date (Some (r, diff)) rs
           else closest_loop target_date acc rs))"

text \<open>
  The \<^verbatim>\<open>with\<close> block (lines 363 to 388): \<open>Inr None\<close> is the early \<^verbatim>\<open>return None\<close>,
  \<open>Inr (Some (last, prev))\<close> the state with which the block is left. The date of the
  latest row is parsed outside any handler, and \<^verbatim>\<open>last_date - timedelta(days)\<close> raises
  \<^verbatim>\<open>OverflowError\<close> below 0001-01-01 (ordinal 1).
\<close>

definition scan_rows :: "row list \<Rightarrow> string \<Rightarrow> py_error + (row \<times> (row \<times> int) option) option" where
  "scan_rows reader duration =
     (let rows = data_rows reader in
      if rows = [] then Inr None
      else
        (case strptime (hd (last rows)) of
           Inl e \<Rightarrow> Inl e
         | Inr last_date \<Rightarrow>
             if last_date - duration_days duration < 1 then Inl OverflowError
             else Inr (Some (last rows,
                    closest_loop (last_date - duration_days duration) None rows))))"

text \<open>
  \<^verbatim>\<open>float(r[i])\<close> inside a \<^verbatim>\<open>try\<close> whose handler catches \<^verbatim>\<open>Exception\<close>: \<open>None\<close> is
  either exception, the \<^verbatim>\<open>IndexError\<close> of a missing field or the \<^verbatim>\<open>ValueError\<close> of
  \<^verbatim>\<open>float\<close>. A value \<open>Some x\<close> is a finite float: a field that Python reads as an
  infinity or as NaN (\<^verbatim>\<open>inf\<close>, \<^verbatim>\<open>nan\<close>, \<^verbatim>\<open>1e999\<close>) has no image under \<open>fl\<close>, and
  every statement about a parsed close below is a statement about a finite close.
\<close>

definition field_float :: "(string \<Rightarrow> real option) \<Rightarrow> row \<Rightarrow> nat \<Rightarrow> real option" where
  "field_float fl r i = (if i < length r then fl (r ! i) else None)"

text \<open>\<^verbatim>\<open>float(r[2]) if len(r) > 2 and r[2] != "" else float(r[1])\<close>\<close>

definition row_close :: "(string \<Rightarrow> real option) \<Rightarrow> row \<Rightarrow> real option" where
  "row_close fl r =
     (if 2 < length r \<and> r ! 2 \<noteq> [] then field_float fl r 2 else field_float fl r 1)"

text \<open>The close of the latest row: on any exception, \<^verbatim>\<open>float(last[1])\<close> is tried.\<close>

definition last_close :: "(string \<Rightarrow> real option) \<Rightarrow> row \<Rightarrow> real option" where
  "last_close fl r = (case row_close fl r of Some c \<Rightarrow> Some c | None \<Rightarrow> field_float fl r 1)"

definition pct_change :: "real \<Rightarrow> real option \<Rightarrow> real option" where
  "pct_change c prev =
     (case prev of
        None \<Rightarrow> None
      | Some p \<Rightarrow> if p \<noteq> 0 then Some ((c - p) / p * 100) else None)"

definition read_latest_from_csv ::
  "(string \<Rightarrow> real option) \<Rightarrow> row list option \<Rightarrow> string \<Rightarrow> py_error + change_summary option" where
  "read_latest_from_csv fl csv_file duration =
     (case csv_file of
        None \<Rightarrow> Inr None
      | Some reader \<Rightarrow>
          (case scan_rows reader duration of
             Inl e \<Rightarrow> Inl e
           | Inr None \<Rightarrow> Inr None
           | Inr (Some (lst, prev)) \<Rightarrow>
               (case last_close fl lst of
                  None \<Rightarrow> Inr None
                | Some c \<Rightarrow>
                    (let pc = (case prev of None \<Rightarrow> None | Some (p, d) \<Rightarrow> row_close fl p)
                     in Inr (Some \<lparr>date = hd lst, close = c, prev_close = pc,
                                    change_pct = pct_change c pc\<rparr>)))))"

section \<open>Indicator Engine: \<^verbatim>\<open>compute_indicators_from_csv\<close>\<close>

subsection \<open>The frame read by pandas\<close>

text \<open>
  The input is the frame that \<^verbatim>\<open>pd.read_csv\<close> returned, \<open>None\<close> when the file does not
  exist or both attempts to read it raised (the function returns \<^verbatim>\<open>None\<close> in each
  case). A frame is its column labels (distinct, as \<^verbatim>\<open>read_csv\<close> makes them) and its
  rows; a cell is a number, a missing value or a string that pandas left as text. A row
  shorter than the header is padded with missing values, as \<^verbatim>\<open>read_csv\<close> does. The
  first column (the dates) is carried as text: the indicators never read it.
\<close>

datatype cell = Num real | NaN | Str string

record dataframe =
  df_columns :: "string list"
  df_rows :: "cell list list"

type_synonym series = "real option list"

definition shape0 :: "dataframe \<Rightarrow> nat" where
  "shape0 df = length (df_rows df)"

definition cell_at :: "cell list \<Rightarrow> nat \<Rightarrow> cell" where
  "cell_at r i = (if i < length r then r ! i else NaN)"

text \<open>
  \<^verbatim>\<open>df.rename(columns={df.columns[0]: 'Date'})\<close> and \<^verbatim>\<open>df.set_index('Date')\<close>: the first
  column becomes the index and leaves \<^verbatim>\<open>df.columns\<close>. The result is the list of the
  remaining labels. When a later column is already labelled \<^verbatim>\<open>Date\<close>, two columns carry
  the label after the renaming; the first column holds dates or text, so pandas builds
  the index from the pairs of both columns without raising, and both columns leave
  \<^verbatim>\<open>df.columns\<close>.
\<close>

definition set_index_date :: "dataframe \<Rightarrow> py_error + string list" where
  "set_index_date df =
     (case df_columns df of
        [] \<Rightarrow> Inl IndexError
      | c0 # rest \<Rightarrow> Inr (filter (\<lambda>c. c \<noteq> ''Date'') rest))"

text \<open>
  Lines 201 to 209: the first of the five names that is a column, else
  \<^verbatim>\<open>df.columns[0]\<close>, the first column after the index.
\<close>

definition close_names :: "string list" where
  "close_names = [''Close'', ''close'', ''Adj Close'', ''AdjClose'', ''Adj_Close'']"

definition pick_close_col :: "string list \<Rightarrow> py_error + string" where
  "pick_close_col cols =
     (case find (\<lambda>c. c \<in> set cols) close_names of
        Some c \<Rightarrow> Inr c
      | None \<Rightarrow> (case cols of [] \<Rightarrow> Inl IndexError | c # cs \<Rightarrow> Inr c))"

fun index_of :: "'a \<Rightarrow> 'a list \<Rightarrow> nat" where
  "index_of x [] = 0"
| "index_of x (y # ys) = (if x = y then 0 else Suc (index_of x ys))"

text \<open>
  \<^verbatim>\<open>df[c]\<close> for a label of \<^verbatim>\<open>df.columns\<close> after the index was set: the cells at the
  position that the label has in the header.
\<close>

definition column :: "dataframe \<Rightarrow> string \<Rightarrow> cell list" where
  "column df c = map (\<lambda>r. cell_at r (Suc (index_of c (tl (df_columns df))))) (df_rows df)"

text \<open>\<^verbatim>\<open>.astype(float)\<close>: a string that is not a number raises \<^verbatim>\<open>ValueError\<close>.\<close>

fun cell_float :: "(string \<Rightarrow> real option) \<Rightarrow> cell \<Rightarrow> py_error + real option" where
  "cell_float fl (Num x) = Inr (Some x)"
| "cell_float fl NaN = Inr None"
| "cell_float fl (Str s) = (case fl s of Some x \<Rightarrow> Inr (Some x) | None \<Rightarrow> Inl ValueError)"

fun astype_float :: "(string \<Rightarrow> real option) \<Rightarrow> cell list \<Rightarrow> py_error + series" where
  "astype_float fl [] = Inr []"
| "astype_float fl (c # cs) =
     (case cell_float fl c of
        Inl e \<Rightarrow> Inl e
      | Inr v \<Rightarrow> (case astype_float fl cs of Inl e \<Rightarrow> Inl e | Inr vs \<Rightarrow> Inr (v # vs)))"

subsection \<open>Series arithmetic\<close>

text \<open>Element-wise operations; a missing operand gives a missing result.\<close>

definition osub :: "real option \<Rightarrow> real option \<Rightarrow> real option" where
  "osub a b = (case (a, b) of (Some x, Some y) \<Rightarrow> Some (x - y) | _ \<Rightarrow> None)"

definition odiv :: "real option \<Rightarrow> real option \<Rightarrow> real option" where
  "odiv a b = (case (a, b) of (Some x, Some y) \<Rightarrow> Some (x / y) | _ \<Rightarrow> None)"

definition series_sub :: "series \<Rightarrow> series \<Rightarrow> series" where
  "series_sub a b = map (\<lambda>(x, y). osub x y) (zip a b)"

definition series_div :: "series \<Rightarrow> series \<Rightarrow> series" where
  "series_div a b = map (\<lambda>(x, y). odiv x y) (zip a b)"

text \<open>\<^verbatim>\<open>Series.diff()\<close>: the first element is missing.\<close>

fun diff_from :: "real option \<Rightarrow> series \<Rightarrow> series" where
  "diff_from p [] = []"
| "diff_from p (x # xs) = osub x p # diff_from x xs"

definition diff :: "series \<Rightarrow> series" where
  "diff xs = (case xs of [] \<Rightarrow> [] | x # rest \<Rightarrow> None # diff_from x rest)"

text \<open>\<^verbatim>\<open>delta.clip(lower=0)\<close> and \<^verbatim>\<open>-delta.clip(upper=0)\<close>\<close>

definition gain_of :: "series \<Rightarrow> series" where
  "gain_of delta = map (map_option (\<lambda>d. max d 0)) delta"

definition loss_of :: "series \<Rightarrow> series" where
  "loss_of delta = map (map_option (\<lambda>d. - min d 0)) delta"

text \<open>\<^verbatim>\<open>.replace(0, pd.NA)\<close>\<close>

definition replace0 :: "series \<Rightarrow> series" where
  "replace0 xs = map (\<lambda>v. if v = Some 0 then None else v) xs"

text \<open>
  \<^verbatim>\<open>Series.ewm(alpha=a, adjust=False).mean()\<close>, as pandas computes it with its defaults
  \<^verbatim>\<open>ignore_na=False\<close> and \<^verbatim>\<open>min_periods=0\<close>: the average is seeded by the first
  observation; a missing observation keeps the average and ages its weight; otherwise
  \<open>weighted = (old_wt * weighted + a * cur) / (old_wt + a)\<close> with \<open>old_wt\<close> reset to 1,
  which is \<open>(1 - a) * weighted + a * cur\<close> when no value was missing in between. pandas
  leaves the average as it is when it equals the observation.
\<close>

fun ewm_loop :: "real \<Rightarrow> real option \<Rightarrow> real \<Rightarrow> series \<Rightarrow> series" where
  "ewm_loop a weighted old_wt [] = []"
| "ewm_loop a weighted old_wt (cur # vals) =
     (case weighted of
        None \<Rightarrow> cur # ewm_loop a cur old_wt vals
      | Some w \<Rightarrow>
          (case cur of
             None \<Rightarrow> Some w # ewm_loop a (Some w) (old_wt * (1 - a)) vals
           | Some c \<Rightarrow>
               (let ow = old_wt * (1 - a);
                    w' = (if w \<noteq> c then (ow * w + a * c) / (ow + a) else w)
                in Some w' # ewm_loop a (Some w') 1 vals)))"

definition ewm_mean :: "real \<Rightarrow> series \<Rightarrow> series" where
  "ewm_mean a vals = (case vals of [] \<Rightarrow> [] | v # rest \<Rightarrow> v # ewm_loop a v 1 rest)"

text \<open>\<^verbatim>\<open>ewm(span=s)\<close> is \<^verbatim>\<open>ewm(alpha=2/(s+1))\<close>.\<close>

definition ema :: "nat \<Rightarrow> series \<Rightarrow> series" where
  "ema n vals = ewm_mean (2 / (real n + 1)) vals"

subsection \<open>The indicators\<close>

datatype crossover = Bullish | Bearish | Neutral

record snapshot =
  latest_close :: "real option"
  rsi :: "real option"
  macd :: "real option"
  macd_signal :: "real option"
  macd_hist :: "real option"
  macd_crossover :: crossover
  above_21 :: "bool option"
  above_44 :: "bool option"
  above_200 :: "bool option"
  dist_21 :: "real option"
  dist_44 :: "real option"
  dist_200 :: "real option"

text \<open>Lines 213 to 220.\<close>

definition avg_gain_series :: "series \<Rightarrow> series" where
  "avg_gain_series cl = ewm_mean (1 / 14) (gain_of (diff cl))"

definition avg_loss_series :: "series \<Rightarrow> series" where
  "avg_loss_series cl = ewm_mean (1 / 14) (loss_of (diff cl))"

definition rs_series :: "series \<Rightarrow> series" where
  "rs_series cl = series_div (avg_gain_series cl) (replace0 (avg_loss_series cl))"

definition rsi_series :: "series \<Rightarrow> series" where
  "rsi_series cl = map (map_option (\<lambda>rs. 100 - 100 / (1 + rs))) (rs_series cl)"

text \<open>Lines 227 to 232.\<close>

definition macd_series :: "series \<Rightarrow> series" where
  "macd_series cl = series_sub (ema 12 cl) (ema 26 cl)"

definition signal_series :: "series \<Rightarrow> series" where
  "signal_series cl = ema 9 (macd_series cl)"

definition macd_hist_series :: "series \<Rightarrow> series" where
  "macd_hist_series cl = series_sub (macd_series cl) (signal_series cl)"

text \<open>
  Comparisons of a float with a number: every comparison with NaN is false.
\<close>

definition fle :: "real option \<Rightarrow> real \<Rightarrow> bool" where
  "fle v x = (case v of Some y \<Rightarrow> y \<le> x | None \<Rightarrow> False)"

definition fge :: "real option \<Rightarrow> real \<Rightarrow> bool" where
  "fge v x = (case v of Some y \<Rightarrow> y \<ge> x | None \<Rightarrow> False)"

definition flt :: "real option \<Rightarrow> real \<Rightarrow> bool" where
  "flt v x = (case v of Some y \<Rightarrow> y < x | None \<Rightarrow> False)"

definition fgt :: "real option \<Rightarrow> real \<Rightarrow> bool" where
  "fgt v x = (case v of Some y \<Rightarrow> y > x | None \<Rightarrow> False)"

text \<open>Lines 234 to 242, on the histogram series.\<close>

definition crossover_of :: "series \<Rightarrow> crossover" where
  "crossover_of hist =
     (if 2 \<le> length hist then
        (let prev = hist ! (length hist - 2); curr = hist ! (length hist - 1) in
         if fle prev 0 \<and> fgt curr 0 then Bullish
         else if fge prev 0 \<and> flt curr 0 then Bearish
         else Neutral)
      else Neutral)"

text \<open>\<^verbatim>\<open>pct_dist\<close> (lines 246 to 250) and the \<^verbatim>\<open>above_N\<close> flags (lines 252 to 254).\<close>

definition pct_dist :: "real option \<Rightarrow> series \<Rightarrow> real option" where
  "pct_dist latest s =
     (case last s of
        None \<Rightarrow> None
      | Some v \<Rightarrow> if v = 0 then None else map_option (\<lambda>c. (c - v) / v * 100) latest)"

definition above :: "real option \<Rightarrow> series \<Rightarrow> bool option" where
  "above latest s = (case last s of None \<Rightarrow> None | Some v \<Rightarrow> Some (fgt latest v))"

text \<open>
  The returned dictionary, from the close series. A float that is NaN and a field that
  is \<^verbatim>\<open>None\<close> are both \<open>None\<close> here. The \<^verbatim>\<open>ohlcv\<close> list of the source (lines 260 to
  284, the chart window of the last 200 rows) is built after every other field from
  the frame alone, each row inside its own \<^verbatim>\<open>try\<close>; the record leaves it out.
\<close>

definition indicators :: "series \<Rightarrow> snapshot" where
  "indicators cl =
     \<lparr>latest_close = last cl,
      rsi = last (rsi_series cl),
      macd = last (macd_series cl),
      macd_signal = last (signal_series cl),
      macd_hist = last (macd_hist_series cl),
      macd_crossover = crossover_of (macd_hist_series cl),
      above_21 = above (last cl) (ema 21 cl),
      above_44 = above (last cl) (ema 44 cl),
      above_200 = above (last cl) (ema 200 cl),
      dist_21 = pct_dist (last cl) (ema 21 cl),
      dist_44 = pct_dist (last cl) (ema 44 cl),
      dist_200 = pct_dist (last cl) (ema 200 cl)\<rparr>"

definition close_series :: "(string \<Rightarrow> real option) \<Rightarrow> dataframe \<Rightarrow> py_error + series" where
  "close_series fl df =
     (case set_index_date df of
        Inl e \<Rightarrow> Inl e
      | Inr cols \<Rightarrow>
          (case pick_close_col cols of
             Inl e \<Rightarrow> Inl e
           | Inr close_col \<Rightarrow> astype_float fl (column df close_col)))"

definition compute_indicators_from_csv ::
  "(string \<Rightarrow> real option) \<Rightarrow> dataframe option \<Rightarrow> py_error + snapshot option" where
  "compute_indicators_from_csv fl csv_file =
     (case csv_file of
        None \<Rightarrow> Inr None
      | Some df \<Rightarrow>
          if shape0 df < 10 then Inr None
          else
            (case close_series fl df of
               Inl e \<Rightarrow> Inl e
             | Inr cl \<Rightarrow> Inr (Some (indicators cl))))"

subsection \<open>Sample inputs\<close>

text \<open>A frame with the columns \<^verbatim>\<open>Date\<close> and \<^verbatim>\<open>Close\<close>, one row per date and close.\<close>

definition date_close_frame :: "string list \<Rightarrow> real list \<Rightarrow> dataframe" where
  "date_close_frame dates closes =
     \<lparr>df_columns = [''Date'', ''Close''],
      df_rows = map (\<lambda>(d, c). [Str d, Num c]) (zip dates closes)\<rparr>"

definition jan_dates :: "string list" where
  "jan_dates =
     [''2024-01-01'', ''2024-01-02'', ''2024-01-03'', ''2024-01-04'', ''2024-01-05'',
      ''2024-01-08'', ''2024-01-09'', ''2024-01-10'', ''2024-01-11'', ''2024-01-12'',
      ''2024-01-15'', ''2024-01-16'', ''2024-01-17'', ''2024-01-18'', ''2024-01-19'',
      ''2024-01-22'', ''2024-01-23'', ''2024-01-24'', ''2024-01-25'', ''2024-01-26'']"

subsection \<open>Predicates used in the statements\<close>

text \<open>A value that is missing or at least 0.\<close>

definition nonneg :: "real option \<Rightarrow> bool" where
  "nonneg v = (case v of None \<Rightarrow> True | Some x \<Rightarrow> 0 \<le> x)"

text \<open>The date of a row, when its first field parses, and the dates of a list of rows.\<close>

definition row_date :: "row \<Rightarrow> int option" where
  "row_date r = (case strptime (hd r) of Inl e \<Rightarrow> None | Inr d \<Rightarrow> Some d)"

definition row_dates :: "row list \<Rightarrow> int list" where
  "row_dates rs = List.map_filter row_date rs"

text \<open>The distance in days of a row's date to a target date.\<close>

definition row_dist :: "int \<Rightarrow> row \<Rightarrow> int option" where
  "row_dist target_date r = map_option (\<lambda>d. \<bar>d - target_date\<bar>) (row_date r)"

text \<open>The test of the scan loop: no candidate yet, or a strictly smaller distance.\<close>

definition beats :: "(row \<times> int) option \<Rightarrow> int \<Rightarrow> bool" where
  "beats acc k = (case acc of None \<Rightarrow> True | Some (p, pk) \<Rightarrow> k < pk)"

text \<open>
  The close of a data row \<open>r\<close> under the header row \<open>h\<close>, in the words of the
  specification (section 4.1), for comparison with the code: the field under the first
  of the five names that is a column label, else the first field after the date.
\<close>

definition spec_close :: "(string \<Rightarrow> real option) \<Rightarrow> row \<Rightarrow> row \<Rightarrow> real option" where
  "spec_close fl h r =
     (case find (\<lambda>c. c \<in> set (tl h)) close_names of
        Some c \<Rightarrow> field_float fl r (Suc (index_of c (tl h)))
      | None \<Rightarrow> field_float fl r 1)"

text \<open>
  A frame with the columns \<^verbatim>\<open>Date\<close>, \<^verbatim>\<open>Adj Close\<close> and \<^verbatim>\<open>Close\<close>; the adjusted close
  is half the close.
\<close>

definition adj_close_frame :: "string list \<Rightarrow> real list \<Rightarrow> dataframe" where
  "adj_close_frame dates closes =
     \<lparr>df_columns = [''Date'', ''Adj Close'', ''Close''],
      df_rows = map (\<lambda>(d, c). [Str d, Num (c / 2), Num c]) (zip dates closes)\<rparr>"

text \<open>
  A frame with the columns \<^verbatim>\<open>Date\<close> and \<^verbatim>\<open>Close\<close> whose closes are given as cells, so
  that some of them can be missing.
\<close>

definition date_cell_frame :: "string list \<Rightarrow> cell list \<Rightarrow> dataframe" where
  "date_cell_frame dates cells =
     \<lparr>df_columns = [''Date'', ''Close''],
      df_rows = map (\<lambda>(d, c). [Str d, c]) (zip dates cells)\<rparr>"

text \<open>
  The usable rows of a series in the words of the specification (section 3): the rows
  whose close is resolvable.
\<close>

definition usable_rows :: "series \<Rightarrow> nat" where
  "usable_rows cl = length (filter (\<lambda>v. v \<noteq> None) cl)"

section \<open>Properties\<close>

lemmas date_defs = strptime_def parse_year_def parse_month_def parse_day_def
  expect_dash_def two_digits_def one_digit_def digit_of_def ymd2ord_def
  days_before_year_def days_before_month_def days_in_month_def is_leap_def

lemmas csv_defs = read_latest_from_csv_def scan_rows_def data_rows_def looks_like_date_def
  isdigit_def duration_days_def last_close_def row_close_def field_float_def
  pct_change_def float_dec_def

lemmas frame_defs = compute_indicators_from_csv_def shape0_def close_series_def
  set_index_date_def pick_close_col_def close_names_def column_def cell_at_def
  date_close_frame_def jan_dates_def

subsection \<open>Lengths\<close>

lemma length_ewm_loop [simp]: "length (ewm_loop a w ow vals) = length vals"
  by (induction vals arbitrary: w ow) (auto simp: Let_def split: option.splits)

lemma length_ewm_mean [simp]: "length (ewm_mean a vals) = length vals"
  by (simp add: ewm_mean_def split: list.splits)

lemma length_diff_from [simp]: "length (diff_from p xs) = length xs"
  by (induction xs arbitrary: p) auto

lemma length_diff [simp]: "length (diff xs) = length xs"
  by (simp add: diff_def split: list.splits)

lemma length_rsi_series [simp]: "length (rsi_series cl) = length cl"
  by (simp add: rsi_series_def rs_series_def series_div_def avg_gain_series_def
      avg_loss_series_def replace0_def gain_of_def loss_of_def)

lemma length_avg [simp]:
  "length (avg_gain_series cl) = length cl" "length (avg_loss_series cl) = length cl"
  by (simp_all add: avg_gain_series_def avg_loss_series_def gain_of_def loss_of_def)

lemma length_macd_hist_series [simp]: "length (macd_hist_series cl) = length cl"
  by (simp add: macd_hist_series_def signal_series_def macd_series_def series_sub_def ema_def)

lemma length_astype_float: "astype_float fl cs = Inr vs \<Longrightarrow> length vs = length cs"
  by (induction cs arbitrary: vs) (auto split: sum.splits)

lemma length_close_series: "close_series fl df = Inr cl \<Longrightarrow> length cl = shape0 df"
  by (auto simp: close_series_def column_def shape0_def dest!: length_astype_float split: sum.splits)

lemma compute_Some:
  assumes "compute_indicators_from_csv fl csv_file = Inr (Some s)"
  shows "\<exists>df cl. csv_file = Some df \<and> 10 \<le> shape0 df \<and> close_series fl df = Inr cl \<and>
           length cl = shape0 df \<and> s = indicators cl"
  using assms
  by (auto simp: compute_indicators_from_csv_def length_close_series
      split: option.splits if_splits sum.splits)

subsection \<open>The sample frames\<close>

lemma astype_float_Num: "astype_float fl (map Num xs) = Inr (map Some xs)"
  by (induction xs) auto

lemma column_date_close_frame:
  assumes "length dates = length closes"
  shows "column (date_close_frame dates closes) ''Close'' = map Num closes"
proof -
  have "column (date_close_frame dates closes) ''Close'' = map Num (map snd (zip dates closes))"
    by (simp add: column_def date_close_frame_def cell_at_def case_prod_beta comp_def)
  then show ?thesis using assms by (simp only: map_snd_zip)
qed

lemma close_series_date_close_frame:
  assumes "length dates = length closes"
  shows "close_series fl (date_close_frame dates closes) = Inr (map Some closes)"
proof -
  have si: "set_index_date (date_close_frame dates closes) = Inr [''Close'']"
    by (simp add: set_index_date_def date_close_frame_def)
  have pc: "pick_close_col [''Close''] = Inr ''Close''"
    by (simp add: pick_close_col_def close_names_def)
  show ?thesis
    by (simp add: close_series_def si pc column_date_close_frame [OF assms] astype_float_Num)
qed

lemma length_jan_dates: "length jan_dates = 20"
  by (simp add: jan_dates_def)

lemma shape0_date_close_frame:
  "shape0 (date_close_frame dates closes) = min (length dates) (length closes)"
  by (simp add: shape0_def date_close_frame_def)

subsection \<open>Malformed rows\<close>

text \<open>
  C1. The claim: on malformed rows neither path raises. The Horizon Matcher parses
  the date of the latest data row outside any handler: with a latest row that passes
  the data-row test and whose first field is not a \<^verbatim>\<open>YYYY-MM-DD\<close> date,
  \<^verbatim>\<open>read_latest_from_csv\<close> leaves with \<^verbatim>\<open>ValueError\<close>. The same call inside the scan
  loop is guarded by \<^verbatim>\<open>except ValueError: continue\<close>.
\<close>

theorem read_latest_raises_on_malformed_last_date:
  "read_latest_from_csv float_dec
     (Some [[''2024-01-01'', ''100''], [''2024/01/08'', ''110'']]) ''1w'' = Inl ValueError"
  by (simp add: csv_defs date_defs)

text \<open>
  The Indicator Engine converts the close column outside any handler as well: one
  close that is not a number makes \<^verbatim>\<open>astype(float)\<close> raise.
\<close>

lemma compute_indicators_raises_on_malformed_close:
  "compute_indicators_from_csv float_dec
     (Some \<lparr>df_columns = [''Date'', ''Close''],
            df_rows = replicate 9 [Str ''2024-01-02'', Num 50] @
                      [[Str ''2024-01-15'', Str ''abc'']]\<rparr>) = Inl ValueError"
  by (simp add: frame_defs float_dec_def isdigit_def digit_of_def numeral_eq_Suc)

subsection \<open>Insufficient data\<close>

text \<open>
  C2, as amended. The rows counted are the rows of the frame as read, whether or not
  their close is usable: a frame with fewer than 10 rows gives the absent result
  \<^verbatim>\<open>None\<close>, without raising; with 10 rows or more the result is never that absent
  result.
\<close>

theorem insufficient_data_gate:
  "(shape0 df < 10 \<longrightarrow> compute_indicators_from_csv fl (Some df) = Inr None) \<and>
   (10 \<le> shape0 df \<longrightarrow> compute_indicators_from_csv fl (Some df) \<noteq> Inr None)"
  by (auto simp: compute_indicators_from_csv_def split: sum.splits)

theorem insufficient_data_gate_witness:
  "compute_indicators_from_csv float_dec
     (Some (date_close_frame (take 5 jan_dates) [101, 99, 250, 3, 77])) = Inr None \<and>
   compute_indicators_from_csv float_dec
     (Some (date_close_frame (take 10 jan_dates) [1, 2, 1, 1, 1, 1, 1, 1, 1, 1])) \<noteq> Inr None"
  using insufficient_data_gate [of "date_close_frame (take 5 jan_dates) [101, 99, 250, 3, 77]"
      float_dec]
    insufficient_data_gate [of "date_close_frame (take 10 jan_dates) [1, 2, 1, 1, 1, 1, 1, 1, 1, 1]"
      float_dec]
  by (simp add: shape0_def date_close_frame_def jan_dates_def)

text \<open>
  The claim as stated, with usable rows, fails: in a frame of 10 rows of which 5 have no
  close, 5 rows are usable, and the engine returns a snapshot.
\<close>

theorem few_usable_rows_counterexample:
  "close_series float_dec
     (date_cell_frame (take 10 jan_dates)
        [Num 1, NaN, Num 2, NaN, Num 1, NaN, Num 2, NaN, Num 1, NaN]) =
     Inr [Some 1, None, Some 2, None, Some 1, None, Some 2, None, Some 1, None] \<and>
   usable_rows [Some 1, None, Some 2, None, Some 1, None, Some 2, None, Some 1, None] = 5 \<and>
   compute_indicators_from_csv float_dec
     (Some (date_cell_frame (take 10 jan_dates)
        [Num 1, NaN, Num 2, NaN, Num 1, NaN, Num 2, NaN, Num 1, NaN])) =
     Inr (Some (indicators
       [Some 1, None, Some 2, None, Some 1, None, Some 2, None, Some 1, None]))"
  by (simp add: frame_defs date_cell_frame_def usable_rows_def)

subsection \<open>Crossover classification\<close>



subsection \<open>RSI\<close>

lemma ewm_step_nonneg:
  fixes a ow w c :: real
  assumes "0 < a" "0 < ow" "0 \<le> w" "0 \<le> c"
  shows "0 \<le> (ow * w + a * c) / (ow + a)"
  using assms by (intro divide_nonneg_pos add_nonneg_nonneg mult_nonneg_nonneg) auto

lemma ewm_loop_nonneg:
  assumes "0 < a" "a < 1"
  shows "0 < ow \<Longrightarrow> nonneg w \<Longrightarrow> list_all nonneg vals \<Longrightarrow>
         list_all nonneg (ewm_loop a w ow vals)"
proof (induction vals arbitrary: w ow)
  case Nil
  then show ?case by simp
next
  case (Cons cur vals)
  show ?case
  proof (cases w)
    case None
    with Cons show ?thesis by simp
  next
    case (Some x)
    note w = this
    show ?thesis
    proof (cases cur)
      case None
      have "0 < ow * (1 - a)" using Cons.prems(1) assms by simp
      with Cons w None show ?thesis by simp
    next
      case (Some c)
      have pos: "0 < ow * (1 - a)" using Cons.prems(1) assms by simp
      have x0: "0 \<le> x" using Cons.prems(2) w by (simp add: nonneg_def)
      have c0: "0 \<le> c" using Cons.prems(3) Some by (simp add: nonneg_def)
      have "0 \<le> (ow * (1 - a) * x + a * c) / (ow * (1 - a) + a)"
        using ewm_step_nonneg [OF assms(1) pos x0 c0] .
      then have n: "nonneg (Some (if x \<noteq> c then (ow * (1 - a) * x + a * c) / (ow * (1 - a) + a) else x))"
        using x0 by (simp add: nonneg_def)
      have "list_all nonneg (ewm_loop a
              (Some (if x \<noteq> c then (ow * (1 - a) * x + a * c) / (ow * (1 - a) + a) else x)) 1 vals)"
        using Cons.IH [OF _ n] Cons.prems(3) by simp
      with n w Some show ?thesis by (simp add: Let_def)
    qed
  qed
qed

lemma ewm_mean_nonneg:
  assumes "0 < a" "a < 1" "list_all nonneg vals"
  shows "list_all nonneg (ewm_mean a vals)"
  using assms ewm_loop_nonneg [OF assms(1,2), of 1]
  by (auto simp: ewm_mean_def split: list.splits)

lemma gain_nonneg: "list_all nonneg (gain_of d)"
  by (auto simp: gain_of_def list_all_iff nonneg_def split: option.splits)

lemma loss_nonneg: "list_all nonneg (loss_of d)"
  by (auto simp: loss_of_def list_all_iff nonneg_def split: option.splits)

lemma avg_gain_nonneg: "list_all nonneg (avg_gain_series cl)"
  unfolding avg_gain_series_def by (rule ewm_mean_nonneg) (simp_all add: gain_nonneg)

lemma avg_loss_nonneg: "list_all nonneg (avg_loss_series cl)"
  unfolding avg_loss_series_def by (rule ewm_mean_nonneg) (simp_all add: loss_nonneg)

lemma rsi_series_nth:
  assumes "i < length cl"
  shows "rsi_series cl ! i =
     (case (avg_gain_series cl ! i, avg_loss_series cl ! i) of
        (Some g, Some l) \<Rightarrow> if l = 0 then None else Some (100 - 100 / (1 + g / l))
      | _ \<Rightarrow> None)"
  using assms
  by (auto simp: rsi_series_def rs_series_def series_div_def replace0_def odiv_def
      split: option.splits)

lemma rsi_formula_bounds:
  fixes g l :: real
  assumes "0 \<le> g" "0 < l"
  shows "0 \<le> 100 - 100 / (1 + g / l)" "100 - 100 / (1 + g / l) \<le> 100"
proof -
  have "1 \<le> 1 + g / l" using assms by simp
  then have "100 / (1 + g / l) \<le> 100 / 1" by (intro divide_left_mono) auto
  then show "0 \<le> 100 - 100 / (1 + g / l)" by simp
  have "0 \<le> 100 / (1 + g / l)" using \<open>1 \<le> 1 + g / l\<close> by simp
  then show "100 - 100 / (1 + g / l) \<le> 100" by simp
qed

lemma rsi_last:
  assumes "cl \<noteq> []" "last (rsi_series cl) = Some r"
  shows "\<exists>g l. last (avg_gain_series cl) = Some g \<and> last (avg_loss_series cl) = Some l \<and>
           0 \<le> g \<and> 0 < l \<and> r = 100 - 100 / (1 + g / l)"
proof -
  let ?i = "length cl - 1"
  have i: "?i < length cl" using assms(1) by simp
  have ne: "rsi_series cl \<noteq> []" "avg_gain_series cl \<noteq> []" "avg_loss_series cl \<noteq> []"
    using i length_rsi_series [of cl] length_avg [of cl] by force+
  have l1: "last (rsi_series cl) = rsi_series cl ! ?i" using ne by (simp add: last_conv_nth)
  have l2: "last (avg_gain_series cl) = avg_gain_series cl ! ?i" using ne by (simp add: last_conv_nth)
  have l3: "last (avg_loss_series cl) = avg_loss_series cl ! ?i" using ne by (simp add: last_conv_nth)
  from assms(2) l1 rsi_series_nth [OF i]
  obtain g l where gl: "avg_gain_series cl ! ?i = Some g" "avg_loss_series cl ! ?i = Some l"
      "l \<noteq> 0" "r = 100 - 100 / (1 + g / l)"
    by (auto split: option.splits if_splits)
  have "nonneg (avg_gain_series cl ! ?i)" "nonneg (avg_loss_series cl ! ?i)"
    using avg_gain_nonneg [of cl] avg_loss_nonneg [of cl] i by (simp_all add: list_all_length)
  with gl have "0 \<le> g" "0 < l" by (simp_all add: nonneg_def)
  with gl l2 l3 show ?thesis by auto
qed

text \<open>
  C4. Whenever the engine returns a snapshot whose RSI is defined, the value lies in the
  closed interval from 0 to 100. (It is defined exactly when the smoothed loss at the
  last row is present and nonzero, see \<open>rsi_last\<close>.)
\<close>

theorem rsi_in_range:
  assumes "compute_indicators_from_csv fl csv_file = Inr (Some s)" and "rsi s = Some r"
  shows "0 \<le> r \<and> r \<le> 100"
proof -
  from compute_Some [OF assms(1)] obtain df cl where
    c: "10 \<le> shape0 df" "length cl = shape0 df" "s = indicators cl" by auto
  then have ne: "cl \<noteq> []" by auto
  have "last (rsi_series cl) = Some r" using assms(2) c by (simp add: indicators_def)
  from rsi_last [OF ne this] obtain g l where
    "0 \<le> g" "0 < l" "r = 100 - 100 / (1 + g / l)" by auto
  then show ?thesis using rsi_formula_bounds [of g l] by simp
qed

lemma rsi_sample:
  "last (rsi_series [Some 1, Some 2, Some 1, Some 1, Some 1, Some 1, Some 1, Some 1, Some 1, Some 1])
     = Some (650 / 7)"
  by (simp add: rsi_series_def rs_series_def series_div_def replace0_def odiv_def
      avg_gain_series_def avg_loss_series_def ewm_mean_def diff_def gain_of_def loss_of_def
      osub_def Let_def)

text \<open>
  Ten rows whose close goes 1, 2, 1, 1, ...: the smoothed gain is 13 times the smoothed
  loss, and the RSI is 100 - 100 / 14.
\<close>

theorem rsi_in_range_witness:
  "compute_indicators_from_csv float_dec
     (Some (date_close_frame (take 10 jan_dates) [1, 2, 1, 1, 1, 1, 1, 1, 1, 1])) =
     Inr (Some (indicators (map Some [1, 2, 1, 1, 1, 1, 1, 1, 1, 1]))) \<and>
   rsi (indicators (map Some [1, 2, 1, 1, 1, 1, 1, 1, 1, 1])) = Some (650 / 7) \<and>
   (0::real) \<le> 650 / 7 \<and> (650 / 7 :: real) \<le> 100"
proof -
  have h1: "compute_indicators_from_csv float_dec
     (Some (date_close_frame (take 10 jan_dates) [1, 2, 1, 1, 1, 1, 1, 1, 1, 1])) =
     Inr (Some (indicators (map Some [1, 2, 1, 1, 1, 1, 1, 1, 1, 1])))"
    by (simp add: compute_indicators_from_csv_def shape0_date_close_frame
        close_series_date_close_frame jan_dates_def)
  have h2: "rsi (indicators (map Some [1, 2, 1, 1, 1, 1, 1, 1, 1, 1])) = Some (650 / 7)"
    using rsi_sample by (simp add: indicators_def)
  from rsi_in_range [OF h1 h2] h1 h2 show ?thesis by simp
qed

subsection \<open>A constant close\<close>

lemma ewm_loop_const:
  "ewm_loop a (Some c) ow (replicate n (Some c)) = replicate n (Some c)"
  by (induction n arbitrary: ow) (simp_all add: Let_def)

lemma ewm_loop_seed: "ewm_loop a None ow (replicate n (Some c)) = replicate n (Some c)"
  by (cases n) (simp_all add: ewm_loop_const)

lemma ewm_mean_const:
  "ewm_mean a (Some c # replicate n (Some c)) = Some c # replicate n (Some c)"
  by (simp add: ewm_mean_def ewm_loop_const)

lemma ewm_mean_after_gap:
  "ewm_mean a (None # replicate n (Some c)) = None # replicate n (Some c)"
  by (simp add: ewm_mean_def ewm_loop_seed)

lemma diff_from_const: "diff_from (Some c) (replicate n (Some c)) = replicate n (Some 0)"
  by (induction n) (simp_all add: osub_def)

lemma diff_const: "diff (Some c # replicate n (Some c)) = None # replicate n (Some 0)"
  by (simp add: diff_def diff_from_const)

lemma ema_const: "ema k (Some c # replicate n (Some c)) = Some c # replicate n (Some c)"
  by (simp add: ema_def ewm_mean_const)

lemma series_sub_const:
  "series_sub (Some c # replicate n (Some c)) (Some d # replicate n (Some d)) =
     Some (c - d) # replicate n (Some (c - d))"
  by (simp add: series_sub_def osub_def)

lemma macd_const:
  "macd_series (Some c # replicate n (Some c)) = Some 0 # replicate n (Some 0)"
  by (simp add: macd_series_def ema_const series_sub_const)

lemma signal_const:
  "signal_series (Some c # replicate n (Some c)) = Some 0 # replicate n (Some 0)"
  by (simp add: signal_series_def macd_const ema_const)

lemma hist_const:
  "macd_hist_series (Some c # replicate n (Some c)) = Some 0 # replicate n (Some 0)"
  by (simp add: macd_hist_series_def macd_const signal_const series_sub_const)

lemma avg_gain_const:
  "avg_gain_series (Some c # replicate n (Some c)) = None # replicate n (Some 0)"
  by (simp add: avg_gain_series_def diff_const gain_of_def ewm_mean_after_gap)

lemma avg_loss_const:
  "avg_loss_series (Some c # replicate n (Some c)) = None # replicate n (Some 0)"
  by (simp add: avg_loss_series_def diff_const loss_of_def ewm_mean_after_gap)

lemma rsi_const: "rsi_series (Some c # replicate n (Some c)) = None # replicate n None"
  by (simp add: rsi_series_def rs_series_def avg_gain_const avg_loss_const replace0_def
      series_div_def odiv_def)

lemma crossover_zeros: "crossover_of (Some 0 # replicate (Suc n) (Some 0)) = Neutral"
  by (simp add: crossover_of_def Let_def fle_def fgt_def fge_def flt_def nth_Cons')

text \<open>
  C5. With at least 10 rows whose close is 50 throughout, the engine returns a snapshot
  in which the RSI is absent (the smoothed loss at the last row is exactly 0), the EMA
  of span 21 at the last row is 50 (so the distance to it is 0), the MACD histogram is
  0 and the crossover is neutral.
\<close>

theorem constant_close_snapshot:
  assumes "10 \<le> shape0 df"
    and "close_series fl df = Inr (replicate (shape0 df) (Some 50))"
  shows "\<exists>s. compute_indicators_from_csv fl (Some df) = Inr (Some s) \<and>
           rsi s = None \<and>
           last (avg_loss_series (replicate (shape0 df) (Some 50))) = Some 0 \<and>
           last (ema 21 (replicate (shape0 df) (Some 50))) = Some 50 \<and>
           dist_21 s = Some 0 \<and>
           macd_hist s = Some 0 \<and>
           macd_crossover s = Neutral"
proof -
  obtain n where n: "shape0 df = Suc (Suc n)"
    using assms(1) by (cases "shape0 df"; cases "shape0 df - 1") auto
  let ?cl = "Some 50 # replicate (Suc n) (Some (50::real))"
  have c: "compute_indicators_from_csv fl (Some df) = Inr (Some (indicators ?cl))"
    using assms n by (simp add: compute_indicators_from_csv_def)
  have r: "rsi (indicators ?cl) = None"
    by (simp add: indicators_def rsi_const del: replicate.simps)
  have l: "last (avg_loss_series ?cl) = Some 0"
    by (simp add: avg_loss_const del: replicate.simps)
  have e: "last (ema 21 ?cl) = Some 50"
    by (simp add: ema_const del: replicate.simps)
  have d: "dist_21 (indicators ?cl) = Some 0"
    by (simp add: indicators_def pct_dist_def ema_const del: replicate.simps)
  have h: "macd_hist (indicators ?cl) = Some 0"
    by (simp add: indicators_def hist_const del: replicate.simps)
  have x: "macd_crossover (indicators ?cl) = Neutral"
    by (simp add: indicators_def hist_const crossover_zeros del: replicate.simps)
  show ?thesis using c r l e d h x by (simp add: n del: indicators_def)
qed

theorem constant_close_snapshot_witness:
  "\<exists>s. compute_indicators_from_csv float_dec
          (Some (date_close_frame jan_dates (replicate 20 50))) = Inr (Some s) \<and>
        rsi s = None \<and>
        last (avg_loss_series (replicate 20 (Some 50))) = Some 0 \<and>
        last (ema 21 (replicate 20 (Some 50))) = Some 50 \<and>
        dist_21 s = Some 0 \<and>
        macd_hist s = Some 0 \<and>
        macd_crossover s = Neutral"
proof -
  have s: "shape0 (date_close_frame jan_dates (replicate 20 50)) = 20"
    by (simp add: shape0_date_close_frame length_jan_dates)
  have h1: "10 \<le> shape0 (date_close_frame jan_dates (replicate 20 50))"
    by (simp add: s)
  have h2: "close_series float_dec (date_close_frame jan_dates (replicate 20 50)) =
      Inr (replicate (shape0 (date_close_frame jan_dates (replicate 20 50))) (Some 50))"
    by (simp add: s close_series_date_close_frame length_jan_dates)
  from constant_close_snapshot [OF h1 h2] show ?thesis by (simp only: s)
qed

subsection \<open>The scan for the closest row\<close>

lemma parse_day_pos: "parse_day s = Some (d, rest) \<Longrightarrow> 1 \<le> d"
  by (auto simp: parse_day_def two_digits_def one_digit_def
      split: list.splits option.splits if_splits)

lemma strptime_pos: "strptime s = Inr d \<Longrightarrow> 1 \<le> d"
  by (auto simp: strptime_def ymd2ord_def dest!: parse_day_pos
      split: option.splits if_splits)

lemma row_dist_eq:
  "row_dist t r = Some k \<longleftrightarrow> (\<exists>d. strptime (hd r) = Inr d \<and> k = \<bar>d - t\<bar>)"
  by (auto simp: row_dist_def row_date_def split: sum.splits)

lemma closest_loop_step:
  "closest_loop t acc (r # rs) =
     (case row_dist t r of
        None \<Rightarrow> closest_loop t acc rs
      | Some k \<Rightarrow>
          if (case acc of None \<Rightarrow> True | Some (p, pk) \<Rightarrow> k < pk)
          then closest_loop t (Some (r, k)) rs else closest_loop t acc rs)"
  by (simp add: row_dist_def row_date_def Let_def split: sum.splits)

declare closest_loop.simps(2) [simp del]

lemma closest_loop_cases:
  "(closest_loop t acc rs = acc \<and>
      (\<forall>x\<in>set rs. \<forall>k. row_dist t x = Some k \<longrightarrow> \<not> beats acc k)) \<or>
   (\<exists>pre m post k. rs = pre @ m # post \<and> closest_loop t acc rs = Some (m, k) \<and>
      row_dist t m = Some k \<and> beats acc k \<and>
      (\<forall>x\<in>set pre. \<forall>j. row_dist t x = Some j \<longrightarrow> k < j) \<and>
      (\<forall>x\<in>set post. \<forall>j. row_dist t x = Some j \<longrightarrow> k \<le> j))"
proof (induction rs arbitrary: acc)
  case Nil
  then show ?case by simp
next
  case (Cons r rs)
  show ?case
  proof (cases "row_dist t r")
    case None
    from Cons.IH [of acc] show ?thesis
    proof (elim disjE exE conjE)
      assume "closest_loop t acc rs = acc"
        "\<forall>x\<in>set rs. \<forall>k. row_dist t x = Some k \<longrightarrow> \<not> beats acc k"
      with None show ?thesis by (simp add: closest_loop_step)
    next
      fix pre m post k
      assume a: "rs = pre @ m # post" "closest_loop t acc rs = Some (m, k)"
        "row_dist t m = Some k" "beats acc k"
        "\<forall>x\<in>set pre. \<forall>j. row_dist t x = Some j \<longrightarrow> k < j"
        "\<forall>x\<in>set post. \<forall>j. row_dist t x = Some j \<longrightarrow> k \<le> j"
      have "r # rs = (r # pre) @ m # post" using a(1) by simp
      moreover have "closest_loop t acc (r # rs) = Some (m, k)"
        using None a(2) by (simp add: closest_loop_step)
      moreover have "\<forall>x\<in>set (r # pre). \<forall>j. row_dist t x = Some j \<longrightarrow> k < j"
        using None a(5) by simp
      ultimately show ?thesis using a(3,4,6) by blast
    qed
  next
    case (Some d)
    show ?thesis
    proof (cases "beats acc d")
      case True
      then have step: "closest_loop t acc (r # rs) = closest_loop t (Some (r, d)) rs"
        using Some by (simp add: closest_loop_step beats_def)
      from Cons.IH [of "Some (r, d)"] show ?thesis
      proof (elim disjE exE conjE)
        assume a: "closest_loop t (Some (r, d)) rs = Some (r, d)"
          "\<forall>x\<in>set rs. \<forall>k. row_dist t x = Some k \<longrightarrow> \<not> beats (Some (r, d)) k"
        have "r # rs = [] @ r # rs" by simp
        moreover have "closest_loop t acc (r # rs) = Some (r, d)" using step a(1) by simp
        moreover have "\<forall>x\<in>set rs. \<forall>j. row_dist t x = Some j \<longrightarrow> d \<le> j"
          using a(2) by (auto simp: beats_def)
        ultimately show ?thesis using Some True by (intro disjI2 exI conjI) auto
      next
        fix pre m post k
        assume a: "rs = pre @ m # post" "closest_loop t (Some (r, d)) rs = Some (m, k)"
          "row_dist t m = Some k" "beats (Some (r, d)) k"
          "\<forall>x\<in>set pre. \<forall>j. row_dist t x = Some j \<longrightarrow> k < j"
          "\<forall>x\<in>set post. \<forall>j. row_dist t x = Some j \<longrightarrow> k \<le> j"
        have kd: "k < d" using a(4) by (simp add: beats_def)
        have "r # rs = (r # pre) @ m # post" using a(1) by simp
        moreover have "closest_loop t acc (r # rs) = Some (m, k)" using step a(2) by simp
        moreover have "\<forall>x\<in>set (r # pre). \<forall>j. row_dist t x = Some j \<longrightarrow> k < j"
          using Some kd a(5) by simp
        moreover have "beats acc k" using True kd by (auto simp: beats_def split: option.splits)
        ultimately show ?thesis using a(3,6) by blast
      qed
    next
      case False
      then have step: "closest_loop t acc (r # rs) = closest_loop t acc rs"
        using Some by (simp add: closest_loop_step beats_def)
      from Cons.IH [of acc] show ?thesis
      proof (elim disjE exE conjE)
        assume "closest_loop t acc rs = acc"
          "\<forall>x\<in>set rs. \<forall>k. row_dist t x = Some k \<longrightarrow> \<not> beats acc k"
        with Some False step show ?thesis by simp
      next
        fix pre m post k
        assume a: "rs = pre @ m # post" "closest_loop t acc rs = Some (m, k)"
          "row_dist t m = Some k" "beats acc k"
          "\<forall>x\<in>set pre. \<forall>j. row_dist t x = Some j \<longrightarrow> k < j"
          "\<forall>x\<in>set post. \<forall>j. row_dist t x = Some j \<longrightarrow> k \<le> j"
        have kd: "k < d" using a(4) False by (auto simp: beats_def split: option.splits)
        have "r # rs = (r # pre) @ m # post" using a(1) by simp
        moreover have "closest_loop t acc (r # rs) = Some (m, k)" using step a(2) by simp
        moreover have "\<forall>x\<in>set (r # pre). \<forall>j. row_dist t x = Some j \<longrightarrow> k < j"
          using Some kd a(5) by simp
        ultimately show ?thesis using a(3,4,6) by blast
      qed
    qed
  qed
qed

lemma closest_loop_None:
  assumes "x \<in> set rs" "row_dist t x = Some j"
  shows "\<exists>pre m post k. rs = pre @ m # post \<and> closest_loop t None rs = Some (m, k) \<and>
      row_dist t m = Some k \<and>
      (\<forall>x\<in>set pre. \<forall>j. row_dist t x = Some j \<longrightarrow> k < j) \<and>
      (\<forall>x\<in>set post. \<forall>j. row_dist t x = Some j \<longrightarrow> k \<le> j)"
  using closest_loop_cases [of t None rs] assms by (auto simp: beats_def)

lemma scan_rows_eq:
  assumes "data_rows reader \<noteq> []" "strptime (hd (last (data_rows reader))) = Inr ld"
    "1 \<le> ld - duration_days duration"
  shows "scan_rows reader duration =
     Inr (Some (last (data_rows reader),
                closest_loop (ld - duration_days duration) None (data_rows reader)))"
  using assms by (simp add: scan_rows_def Let_def)

lemma scan_rows_Some:
  assumes "scan_rows reader duration = Inr (Some (lst, prev))"
  shows "\<exists>ld. data_rows reader \<noteq> [] \<and> lst = last (data_rows reader) \<and>
           strptime (hd lst) = Inr ld \<and> 1 \<le> ld - duration_days duration \<and>
           prev = closest_loop (ld - duration_days duration) None (data_rows reader)"
  using assms by (auto simp: scan_rows_def Let_def split: if_splits sum.splits)

lemma scan_rows_matched:
  assumes "scan_rows reader duration = Inr (Some (lst, prev))"
  shows "\<exists>ld pre m post k. strptime (hd lst) = Inr ld \<and> lst = last (data_rows reader) \<and>
           data_rows reader = pre @ m # post \<and> prev = Some (m, k) \<and>
           row_dist (ld - duration_days duration) m = Some k \<and>
           (\<forall>x\<in>set pre. \<forall>j. row_dist (ld - duration_days duration) x = Some j \<longrightarrow> k < j) \<and>
           (\<forall>x\<in>set post. \<forall>j. row_dist (ld - duration_days duration) x = Some j \<longrightarrow> k \<le> j)"
proof -
  from scan_rows_Some [OF assms] obtain ld where
    s: "data_rows reader \<noteq> []" "lst = last (data_rows reader)" "strptime (hd lst) = Inr ld"
      "prev = closest_loop (ld - duration_days duration) None (data_rows reader)"
    by auto
  have "lst \<in> set (data_rows reader)" using s(1,2) by simp
  moreover have "row_dist (ld - duration_days duration) lst = Some \<bar>ld - (ld - duration_days duration)\<bar>"
    using s(3) by (simp add: row_dist_eq)
  ultimately show ?thesis
    using closest_loop_None [of lst "data_rows reader" "ld - duration_days duration"] s
    by blast
qed

lemma row_dates_append: "row_dates (xs @ ys) = row_dates xs @ row_dates ys"
  by (simp add: row_dates_def List.map_filter_def)

lemma row_dates_Cons:
  "row_dates (x # xs) = (case row_date x of None \<Rightarrow> row_dates xs | Some d \<Rightarrow> d # row_dates xs)"
  by (simp add: row_dates_def split: option.splits)

lemma row_dates_mem: "x \<in> set xs \<Longrightarrow> row_date x = Some d \<Longrightarrow> d \<in> set (row_dates xs)"
  by (force simp: row_dates_def List.map_filter_def)

text \<open>
  C7. Whenever the scan is reached (there are data rows, the latest date parses and the
  target date exists), a row is matched; the matched row \<open>m\<close> has the minimum distance in
  days to the target date among the rows whose date parses; every row before it in the
  file is strictly farther, so among rows at the minimum distance the first in file
  order is taken; and when the dates of the file ascend, the matched row has the
  earliest date among the rows at the minimum distance.
\<close>

theorem closest_row_tie_break:
  assumes "scan_rows reader duration = Inr (Some (lst, prev))"
  shows "\<exists>ld pre m post dm.
      strptime (hd lst) = Inr ld \<and>
      data_rows reader = pre @ m # post \<and>
      strptime (hd m) = Inr dm \<and>
      prev = Some (m, \<bar>dm - (ld - duration_days duration)\<bar>) \<and>
      (\<forall>x\<in>set (data_rows reader). \<forall>dx. strptime (hd x) = Inr dx \<longrightarrow>
         \<bar>dm - (ld - duration_days duration)\<bar> \<le> \<bar>dx - (ld - duration_days duration)\<bar>) \<and>
      (\<forall>x\<in>set pre. \<forall>dx. strptime (hd x) = Inr dx \<longrightarrow>
         \<bar>dm - (ld - duration_days duration)\<bar> < \<bar>dx - (ld - duration_days duration)\<bar>) \<and>
      (sorted (row_dates (data_rows reader)) \<longrightarrow>
         (\<forall>x\<in>set (data_rows reader). \<forall>dx. strptime (hd x) = Inr dx \<and>
            \<bar>dx - (ld - duration_days duration)\<bar> = \<bar>dm - (ld - duration_days duration)\<bar> \<longrightarrow>
            dm \<le> dx))"
proof -
  from scan_rows_matched [OF assms] obtain ld pre m post k where
    s: "strptime (hd lst) = Inr ld" "data_rows reader = pre @ m # post" "prev = Some (m, k)"
      "row_dist (ld - duration_days duration) m = Some k"
      "\<forall>x\<in>set pre. \<forall>j. row_dist (ld - duration_days duration) x = Some j \<longrightarrow> k < j"
      "\<forall>x\<in>set post. \<forall>j. row_dist (ld - duration_days duration) x = Some j \<longrightarrow> k \<le> j"
    by blast
  let ?t = "ld - duration_days duration"
  from s(4) obtain dm where dm: "strptime (hd m) = Inr dm" "k = \<bar>dm - ?t\<bar>"
    by (auto simp: row_dist_eq)
  have pre: "\<forall>x\<in>set pre. \<forall>dx. strptime (hd x) = Inr dx \<longrightarrow> \<bar>dm - ?t\<bar> < \<bar>dx - ?t\<bar>"
    using s(5) dm(2) by (auto simp: row_dist_eq)
  have post: "\<forall>x\<in>set post. \<forall>dx. strptime (hd x) = Inr dx \<longrightarrow> \<bar>dm - ?t\<bar> \<le> \<bar>dx - ?t\<bar>"
    using s(6) dm(2) by (auto simp: row_dist_eq)
  have all: "\<forall>x\<in>set (data_rows reader). \<forall>dx. strptime (hd x) = Inr dx \<longrightarrow>
      \<bar>dm - ?t\<bar> \<le> \<bar>dx - ?t\<bar>"
    using pre post dm(1) unfolding s(2) by fastforce
  have srt: "\<forall>x\<in>set (data_rows reader). \<forall>dx. strptime (hd x) = Inr dx \<and>
            \<bar>dx - ?t\<bar> = \<bar>dm - ?t\<bar> \<longrightarrow> dm \<le> dx"
    if sorted: "sorted (row_dates (data_rows reader))"
  proof (intro ballI allI impI)
    fix x dx
    assume x: "x \<in> set (data_rows reader)" and dx: "strptime (hd x) = Inr dx \<and> \<bar>dx - ?t\<bar> = \<bar>dm - ?t\<bar>"
    have rd: "row_date m = Some dm" using dm(1) by (simp add: row_date_def)
    have "sorted (row_dates pre @ dm # row_dates post)"
      using sorted unfolding s(2) by (simp add: row_dates_append row_dates_Cons rd)
    then have after: "\<forall>y\<in>set (row_dates post). dm \<le> y"
      by (simp add: sorted_append)
    from x s(2) consider "x \<in> set pre" | "x = m" | "x \<in> set post" by auto
    then show "dm \<le> dx"
    proof cases
      case 1
      with pre dx show ?thesis by force
    next
      case 2
      with dm(1) dx show ?thesis by simp
    next
      case 3
      have "row_date x = Some dx" using dx by (simp add: row_date_def)
      with 3 have "dx \<in> set (row_dates post)" by (rule row_dates_mem)
      with after show ?thesis by simp
    qed
  qed
  show ?thesis using s(1,2,3) dm all pre srt by blast
qed

subsection \<open>Concrete dates\<close>

lemma d0105: "strptime ''2024-01-05'' = Inr 738890"
  by (simp add: date_defs upt_rec)
lemma d0109: "strptime ''2024-01-09'' = Inr 738894"
  by (simp add: date_defs upt_rec)
lemma d0114: "strptime ''2024-01-14'' = Inr 738899"
  by (simp add: date_defs upt_rec)
lemma d0101: "strptime ''2024-01-01'' = Inr 738886"
  by (simp add: date_defs upt_rec)
lemma d0108: "strptime ''2024-01-08'' = Inr 738893"
  by (simp add: date_defs upt_rec)

subsection \<open>Ties and exact matches\<close>

text \<open>
  Latest row 2024-01-14, horizon one week: the target is 2024-01-07, and the rows of
  2024-01-05 and 2024-01-09 are both two days away. The earlier one is matched.
\<close>

lemma tie_scan:
  "scan_rows [[''2024-01-05'', ''10''], [''2024-01-09'', ''11''], [''2024-01-14'', ''12'']] ''1w'' =
     Inr (Some ([''2024-01-14'', ''12''], Some ([''2024-01-05'', ''10''], 2)))"
  by (simp add: scan_rows_def data_rows_def looks_like_date_def isdigit_def digit_of_def
      duration_days_def d0105 d0109 d0114 closest_loop_step row_dist_def row_date_def)

theorem closest_row_tie_break_witness:
  "scan_rows [[''2024-01-05'', ''10''], [''2024-01-09'', ''11''], [''2024-01-14'', ''12'']] ''1w'' =
     Inr (Some ([''2024-01-14'', ''12''], Some ([''2024-01-05'', ''10''], 2))) \<and>
   row_dist (738899 - 7) [''2024-01-05'', ''10''] = Some 2 \<and>
   row_dist (738899 - 7) [''2024-01-09'', ''11''] = Some 2 \<and>
   sorted (row_dates
     (data_rows [[''2024-01-05'', ''10''], [''2024-01-09'', ''11''], [''2024-01-14'', ''12'']])) \<and>
   (\<exists>ld pre m post dm.
      strptime (hd [''2024-01-14'', ''12'']) = Inr ld \<and>
      data_rows [[''2024-01-05'', ''10''], [''2024-01-09'', ''11''], [''2024-01-14'', ''12'']] =
        pre @ m # post \<and>
      strptime (hd m) = Inr dm \<and>
      Some ([''2024-01-05'', ''10''], 2 :: int) = Some (m, \<bar>dm - (ld - duration_days ''1w'')\<bar>) \<and>
      (\<forall>x\<in>set (data_rows
            [[''2024-01-05'', ''10''], [''2024-01-09'', ''11''], [''2024-01-14'', ''12'']]).
         \<forall>dx. strptime (hd x) = Inr dx \<and>
            \<bar>dx - (ld - duration_days ''1w'')\<bar> = \<bar>dm - (ld - duration_days ''1w'')\<bar> \<longrightarrow>
            dm \<le> dx))"
proof -
  let ?X = "[[''2024-01-05'', ''10''], [''2024-01-09'', ''11''], [''2024-01-14'', ''12'']]"
  note h = tie_scan
  have dr: "data_rows ?X = ?X"
    by (simp add: data_rows_def looks_like_date_def isdigit_def digit_of_def)
  have srt: "sorted (row_dates (data_rows ?X))"
    by (simp add: dr row_dates_def row_date_def d0105 d0109 d0114)
  from closest_row_tie_break [OF h] srt obtain ld pre m post dm where
    "strptime (hd [''2024-01-14'', ''12'']) = Inr ld"
    "data_rows ?X = pre @ m # post"
    "strptime (hd m) = Inr dm"
    "Some ([''2024-01-05'', ''10''], 2 :: int) = Some (m, \<bar>dm - (ld - duration_days ''1w'')\<bar>)"
    "\<forall>x\<in>set (data_rows ?X). \<forall>dx. strptime (hd x) = Inr dx \<and>
        \<bar>dx - (ld - duration_days ''1w'')\<bar> = \<bar>dm - (ld - duration_days ''1w'')\<bar> \<longrightarrow>
        dm \<le> dx"
    by blast
  then have "\<exists>ld pre m post dm.
      strptime (hd [''2024-01-14'', ''12'']) = Inr ld \<and>
      data_rows ?X = pre @ m # post \<and>
      strptime (hd m) = Inr dm \<and>
      Some ([''2024-01-05'', ''10''], 2 :: int) = Some (m, \<bar>dm - (ld - duration_days ''1w'')\<bar>) \<and>
      (\<forall>x\<in>set (data_rows ?X). \<forall>dx. strptime (hd x) = Inr dx \<and>
          \<bar>dx - (ld - duration_days ''1w'')\<bar> = \<bar>dm - (ld - duration_days ''1w'')\<bar> \<longrightarrow>
          dm \<le> dx)"
    by blast
  moreover have "row_dist (738899 - 7) [''2024-01-05'', ''10''] = Some 2"
    "row_dist (738899 - 7) [''2024-01-09'', ''11''] = Some 2"
    by (simp_all add: row_dist_def row_date_def d0105 d0109)
  ultimately show ?thesis using h srt by blast
qed

lemma find_first:
  assumes "\<forall>x\<in>set pre. \<not> P x" "P m"
  shows "find P (pre @ m # post) = Some m"
  using assms by (induction pre) auto

text \<open>
  C6. When a data row is dated exactly seven days before the latest row, the horizon
  \<^verbatim>\<open>1w\<close> matches a row of that date at distance 0: the first such row of the file,
  which is that row itself when no other row has its date. For the two rows
  (2024-01-01, 100) and (2024-01-08, 110) the matched row is the one of 2024-01-01 and
  the change is 10 percent.
\<close>

theorem horizon_1w_exact_match:
  "(strptime (hd (last (data_rows reader))) = Inr ld \<and> r \<in> set (data_rows reader) \<and>
    strptime (hd r) = Inr (ld - 7) \<longrightarrow>
      (\<exists>m. scan_rows reader ''1w'' = Inr (Some (last (data_rows reader), Some (m, 0))) \<and>
           strptime (hd m) = Inr (ld - 7) \<and>
           find (\<lambda>x. strptime (hd x) = Inr (ld - 7)) (data_rows reader) = Some m \<and>
           ((\<forall>x\<in>set (data_rows reader). strptime (hd x) = Inr (ld - 7) \<longrightarrow> x = r) \<longrightarrow> m = r))) \<and>
   scan_rows [[''2024-01-01'', ''100''], [''2024-01-08'', ''110'']] ''1w'' =
     Inr (Some ([''2024-01-08'', ''110''], Some ([''2024-01-01'', ''100''], 0))) \<and>
   read_latest_from_csv float_dec
       (Some [[''2024-01-01'', ''100''], [''2024-01-08'', ''110'']]) ''1w'' =
     Inr (Some \<lparr>date = ''2024-01-08'', close = 110, prev_close = Some 100,
                change_pct = Some 10\<rparr>)"
proof (intro conjI impI)
  assume a: "strptime (hd (last (data_rows reader))) = Inr ld \<and> r \<in> set (data_rows reader) \<and>
    strptime (hd r) = Inr (ld - 7)"
  then have ne: "data_rows reader \<noteq> []" by auto
  have t: "1 \<le> ld - duration_days ''1w''"
    using a strptime_pos [of "hd r" "ld - 7"] by (simp add: duration_days_def)
  have s: "scan_rows reader ''1w'' = Inr (Some (last (data_rows reader),
      closest_loop (ld - 7) None (data_rows reader)))"
    using scan_rows_eq [OF ne _ t] a by (simp add: duration_days_def)
  have rd: "row_dist (ld - 7) r = Some 0" using a by (simp add: row_dist_eq)
  from closest_loop_None [of r "data_rows reader" "ld - 7" 0] a rd
  obtain pre m post k where
    c: "data_rows reader = pre @ m # post"
      "closest_loop (ld - 7) None (data_rows reader) = Some (m, k)"
      "row_dist (ld - 7) m = Some k"
      "\<forall>x\<in>set pre. \<forall>j. row_dist (ld - 7) x = Some j \<longrightarrow> k < j"
      "\<forall>x\<in>set post. \<forall>j. row_dist (ld - 7) x = Some j \<longrightarrow> k \<le> j"
    by blast
  have k0: "0 \<le> k" using c(3) by (auto simp: row_dist_eq)
  have "k \<le> 0"
  proof -
    from a c(1) consider "r \<in> set pre" | "r = m" | "r \<in> set post" by auto
    then show ?thesis
    proof cases
      case 1 with c(4) rd k0 show ?thesis by force
    next
      case 2 with c(3) rd show ?thesis by simp
    next
      case 3 with c(5) rd show ?thesis by force
    qed
  qed
  with k0 have k: "k = 0" by simp
  have dm: "strptime (hd m) = Inr (ld - 7)"
    using c(3) k by (auto simp: row_dist_eq)
  have "\<forall>x\<in>set pre. \<not> strptime (hd x) = Inr (ld - 7)"
  proof
    fix x assume x: "x \<in> set pre"
    show "\<not> strptime (hd x) = Inr (ld - 7)"
    proof
      assume "strptime (hd x) = Inr (ld - 7)"
      then have "row_dist (ld - 7) x = Some 0" by (simp add: row_dist_eq)
      with c(4) x k show False by force
    qed
  qed
  then have f: "find (\<lambda>x. strptime (hd x) = Inr (ld - 7)) (data_rows reader) = Some m"
    unfolding c(1) using dm by (rule find_first)
  have u: "(\<forall>x\<in>set (data_rows reader). strptime (hd x) = Inr (ld - 7) \<longrightarrow> x = r) \<longrightarrow> m = r"
    using c(1) dm by auto
  show "\<exists>m. scan_rows reader ''1w'' = Inr (Some (last (data_rows reader), Some (m, 0))) \<and>
           strptime (hd m) = Inr (ld - 7) \<and>
           find (\<lambda>x. strptime (hd x) = Inr (ld - 7)) (data_rows reader) = Some m \<and>
           ((\<forall>x\<in>set (data_rows reader). strptime (hd x) = Inr (ld - 7) \<longrightarrow> x = r) \<longrightarrow> m = r)"
    using s c(2) k dm f u by auto
next
  show "scan_rows [[''2024-01-01'', ''100''], [''2024-01-08'', ''110'']] ''1w'' =
     Inr (Some ([''2024-01-08'', ''110''], Some ([''2024-01-01'', ''100''], 0)))"
    by (simp add: scan_rows_def data_rows_def looks_like_date_def isdigit_def digit_of_def
      duration_days_def d0101 d0108 closest_loop_step row_dist_def row_date_def)
next
  show "read_latest_from_csv float_dec
       (Some [[''2024-01-01'', ''100''], [''2024-01-08'', ''110'']]) ''1w'' =
     Inr (Some \<lparr>date = ''2024-01-08'', close = 110, prev_close = Some 100,
                change_pct = Some 10\<rparr>)"
    by (simp add: csv_defs digit_of_def d0101 d0108 closest_loop_step row_dist_def row_date_def)
qed

lemma d0102: "strptime ''2024-01-02'' = Inr 738887"
  by (simp add: date_defs upt_rec)

theorem horizon_1w_exact_match_witness:
  "strptime (hd (last (data_rows
      [[''2024-01-01'', ''100''], [''2024-01-02'', ''104''], [''2024-01-08'', ''110'']]))) = Inr 738893 \<and>
   strptime (hd [''2024-01-01'', ''100'']) = Inr (738893 - 7) \<and>
   scan_rows [[''2024-01-01'', ''100''], [''2024-01-02'', ''104''], [''2024-01-08'', ''110'']] ''1w'' =
     Inr (Some ([''2024-01-08'', ''110''], Some ([''2024-01-01'', ''100''], 0)))"
proof -
  let ?X = "[[''2024-01-01'', ''100''], [''2024-01-02'', ''104''], [''2024-01-08'', ''110'']]"
  have dr: "data_rows ?X = ?X"
    by (simp add: data_rows_def looks_like_date_def isdigit_def digit_of_def)
  have h1: "strptime (hd (last (data_rows ?X))) = Inr 738893" by (simp add: dr d0108)
  have h2: "[''2024-01-01'', ''100''] \<in> set (data_rows ?X)" by (simp add: dr)
  have h3: "strptime (hd [''2024-01-01'', ''100'']) = Inr (738893 - 7)" by (simp add: d0101)
  have h4: "\<forall>x\<in>set (data_rows ?X). strptime (hd x) = Inr (738893 - 7) \<longrightarrow> x = [''2024-01-01'', ''100'']"
    by (simp add: dr d0101 d0102 d0108)
  from horizon_1w_exact_match [of ?X 738893 "[''2024-01-01'', ''100'']"] h1 h2 h3 h4
  have "scan_rows ?X ''1w'' = Inr (Some (last (data_rows ?X), Some ([''2024-01-01'', ''100''], 0)))"
    by blast
  then show ?thesis using h1 h3 by (simp add: dr)
qed

subsection \<open>The change summary\<close>

text \<open>
  C8, as amended. Whenever the scan is reached, a row \<open>m\<close> is matched, and the result is
  decided by the close of the latest row: when it cannot be parsed (neither directly nor
  from the second field) the whole result is absent; otherwise the result is a summary
  whose \<open>prev_close\<close> is the close of the matched row, absent when that fails to parse,
  and whose \<open>change_pct\<close> is \<open>(close - prev_close) / prev_close * 100\<close> exactly when
  \<open>prev_close\<close> is present and nonzero, and absent otherwise.
\<close>

theorem change_summary_fields:
  assumes "scan_rows reader duration = Inr (Some (lst, prev))"
  shows "\<exists>m d. prev = Some (m, d) \<and>
     read_latest_from_csv fl (Some reader) duration =
       (case last_close fl lst of
          None \<Rightarrow> Inr None
        | Some c \<Rightarrow>
            Inr (Some \<lparr>date = hd lst, close = c, prev_close = row_close fl m,
                   change_pct =
                     (case row_close fl m of
                        None \<Rightarrow> None
                      | Some p \<Rightarrow> if p = 0 then None else Some ((c - p) / p * 100))\<rparr>))"
proof -
  from scan_rows_matched [OF assms] obtain m k where p: "prev = Some (m, k)" by blast
  show ?thesis
    using assms p
    by (auto simp: read_latest_from_csv_def pct_change_def split: option.splits)
qed

text \<open>
  The matched row of 2024-01-01 has no readable close, the latest row has: the summary
  is present, with \<open>prev_close\<close> and \<open>change_pct\<close> absent.
\<close>

theorem change_summary_fields_witness:
  "scan_rows [[''2024-01-01'', ''n/a''], [''2024-01-08'', ''110'']] ''1w'' =
     Inr (Some ([''2024-01-08'', ''110''], Some ([''2024-01-01'', ''n/a''], 0))) \<and>
   row_close float_dec [''2024-01-01'', ''n/a''] = None \<and>
   read_latest_from_csv float_dec (Some [[''2024-01-01'', ''n/a''], [''2024-01-08'', ''110'']]) ''1w'' =
     Inr (Some \<lparr>date = ''2024-01-08'', close = 110, prev_close = None, change_pct = None\<rparr>)"
proof -
  have h: "scan_rows [[''2024-01-01'', ''n/a''], [''2024-01-08'', ''110'']] ''1w'' =
     Inr (Some ([''2024-01-08'', ''110''], Some ([''2024-01-01'', ''n/a''], 0)))"
    by (simp add: scan_rows_def data_rows_def looks_like_date_def isdigit_def digit_of_def
      duration_days_def d0101 d0108 closest_loop_step row_dist_def row_date_def)
  have c: "row_close float_dec [''2024-01-01'', ''n/a''] = None"
    "last_close float_dec [''2024-01-08'', ''110''] = Some 110"
    by (simp_all add: last_close_def row_close_def field_float_def float_dec_def isdigit_def digit_of_def)
  from change_summary_fields [OF h, of float_dec] h c show ?thesis by simp
qed

text \<open>
  The claim as stated fails when the matched row is the latest row and its close cannot
  be parsed: weekly rows and a horizon of one day match the latest row with itself, and
  the overall result is absent.
\<close>

theorem matched_close_unparsable_counterexample:
  "scan_rows [[''2024-01-01'', ''100''], [''2024-01-08'', ''n/a'']] ''1d'' =
     Inr (Some ([''2024-01-08'', ''n/a''], Some ([''2024-01-08'', ''n/a''], 1))) \<and>
   row_close float_dec [''2024-01-08'', ''n/a''] = None \<and>
   read_latest_from_csv float_dec (Some [[''2024-01-01'', ''100''], [''2024-01-08'', ''n/a'']]) ''1d'' =
     Inr None"
  by (simp add: csv_defs digit_of_def d0101 d0108 closest_loop_step row_dist_def row_date_def)

subsection \<open>A single data row\<close>

text \<open>
  C10, as amended. With exactly one data row, whose date parses and lies at least the
  horizon after 0001-01-01, and whose close, read from the third field when that is
  present and not empty and from the second field otherwise, parses to a finite nonzero
  \<open>c\<close> (a parsed value \<open>Some c\<close> is a finite float): the result is present, the row is
  matched with itself, \<open>prev_close = c\<close> and \<open>change_pct = 0\<close>.
\<close>

theorem single_row_matches_itself:
  assumes "data_rows reader = [r]" and "strptime (hd r) = Inr d"
    and "1 \<le> d - duration_days duration" and "row_close fl r = Some c" and "c \<noteq> 0"
  shows "read_latest_from_csv fl (Some reader) duration =
     Inr (Some \<lparr>date = hd r, close = c, prev_close = Some c, change_pct = Some 0\<rparr>)"
proof -
  have s: "scan_rows reader duration =
      Inr (Some (r, Some (r, \<bar>d - (d - duration_days duration)\<bar>)))"
    using assms(1,2,3)
    by (simp add: scan_rows_def closest_loop_step row_dist_def row_date_def)
  show ?thesis
    using assms(4,5) by (simp add: read_latest_from_csv_def s last_close_def pct_change_def)
qed

theorem single_row_matches_itself_witness:
  "read_latest_from_csv float_dec (Some [[''Date'', ''Close''], [''2024-01-08'', ''5'']]) ''3m'' =
     Inr (Some \<lparr>date = ''2024-01-08'', close = 5, prev_close = Some 5, change_pct = Some 0\<rparr>)"
proof -
  have h1: "data_rows [[''Date'', ''Close''], [''2024-01-08'', ''5'']] = [[''2024-01-08'', ''5'']]"
    by (simp add: data_rows_def looks_like_date_def isdigit_def digit_of_def)
  have h2: "strptime (hd [''2024-01-08'', ''5'']) = Inr 738893" by (simp add: d0108)
  have h3: "(1::int) \<le> 738893 - duration_days ''3m''" by (simp add: duration_days_def)
  have h4: "row_close float_dec [''2024-01-08'', ''5''] = Some 5"
    by (simp add: row_close_def field_float_def float_dec_def isdigit_def digit_of_def)
  from single_row_matches_itself [OF h1 h2 h3 h4] show ?thesis by simp
qed

text \<open>
  The claim as stated fails on a single row whose third field is not a number and whose
  second field is: the latest close falls back to the second field (5), the close of
  the matched row, the same row, has no such fallback, so \<open>prev_close\<close> and
  \<open>change_pct\<close> are absent.
\<close>

theorem single_row_fallback_counterexample:
  "data_rows [[''2024-01-08'', ''5'', ''abc'']] = [[''2024-01-08'', ''5'', ''abc'']] \<and>
   read_latest_from_csv float_dec (Some [[''2024-01-08'', ''5'', ''abc'']]) ''1w'' =
     Inr (Some \<lparr>date = ''2024-01-08'', close = 5, prev_close = None, change_pct = None\<rparr>)"
  by (simp add: csv_defs digit_of_def d0108 closest_loop_step row_dist_def row_date_def)

text \<open>
  The two other hypotheses are needed as well: a single data row whose date does not
  parse, or whose date is closer to 0001-01-01 than the horizon, raises.
\<close>

lemma single_row_bad_date_raises:
  "read_latest_from_csv float_dec (Some [[''2024/01/08'', ''5'']]) ''1w'' = Inl ValueError"
  by (simp add: csv_defs date_defs)

lemma single_row_year_one_raises:
  "read_latest_from_csv float_dec (Some [[''0001-01-01'', ''5'']]) ''1d'' = Inl OverflowError"
  by (simp add: csv_defs date_defs)

subsection \<open>Which field is the close\<close>

lemma pick_close_col_cases:
  assumes "pick_close_col cols = Inr c"
  shows "(\<exists>i<length close_names. c = close_names ! i \<and> c \<in> set cols \<and>
            (\<forall>j<i. close_names ! j \<notin> set cols)) \<or>
         ((\<forall>n\<in>set close_names. n \<notin> set cols) \<and> cols \<noteq> [] \<and> c = hd cols)"
proof (cases "find (\<lambda>c. c \<in> set cols) close_names")
  case None
  then have "\<forall>n\<in>set close_names. n \<notin> set cols" by (simp add: find_None_iff)
  with assms None show ?thesis by (auto simp: pick_close_col_def split: list.splits)
next
  case (Some a)
  then have "c = a" using assms by (simp add: pick_close_col_def)
  with Some show ?thesis by (auto simp: find_Some_iff)
qed

lemma data_rows_header: "\<not> looks_like_date h \<Longrightarrow> data_rows (h # rows) = data_rows rows"
  by (simp add: data_rows_def)

lemma read_latest_close:
  assumes "read_latest_from_csv fl (Some reader) duration = Inr (Some s)"
  shows "Some (close s) = last_close fl (last (data_rows reader))"
  using assms
  by (auto simp: read_latest_from_csv_def Let_def dest!: scan_rows_Some
      split: sum.splits option.splits)

lemma last_close_positional:
  "last_close fl r =
     (if 2 < length r \<and> r ! 2 \<noteq> [] \<and> fl (r ! 2) \<noteq> None then fl (r ! 2)
      else if 1 < length r then fl (r ! 1) else None)"
  by (auto simp: last_close_def row_close_def field_float_def split: option.splits)

lemma row_close_positional:
  "row_close fl r =
     (if 2 < length r \<and> r ! 2 \<noteq> [] then fl (r ! 2)
      else if 1 < length r then fl (r ! 1) else None)"
  by (simp add: row_close_def field_float_def)

lemma read_latest_prev_close:
  assumes "read_latest_from_csv fl (Some reader) duration = Inr (Some s)"
  shows "\<exists>m d. scan_rows reader duration = Inr (Some (last (data_rows reader), Some (m, d))) \<and>
           prev_close s = row_close fl m"
proof -
  from assms obtain lst prev where
    sc: "scan_rows reader duration = Inr (Some (lst, prev))"
    by (auto simp: read_latest_from_csv_def split: sum.splits option.splits)
  from scan_rows_matched [OF sc] obtain m k where
    m: "lst = last (data_rows reader)" "prev = Some (m, k)"
    by blast
  have "prev_close s = row_close fl m"
    using assms sc m by (auto simp: read_latest_from_csv_def Let_def split: option.splits)
  with sc m show ?thesis by blast
qed

text \<open>
  A later column labelled \<^verbatim>\<open>Date\<close> leaves the columns together with the first one; the
  close is still read from the column \<^verbatim>\<open>Close\<close>.
\<close>

lemma second_date_column:
  "close_series float_dec
     \<lparr>df_columns = [''Price'', ''Date'', ''Close''],
      df_rows = [[Str ''2024-01-02'', Str ''2024-01-02'', Num 7],
                 [Str ''2024-01-03'', Str ''2024-01-03'', Num 8]]\<rparr> = Inr [Some 7, Some 8]"
  by (simp add: close_series_def set_index_date_def pick_close_col_def close_names_def
      column_def cell_at_def)

text \<open>
  C9, as amended. On the Indicator Engine path the columns are the labels after the
  first that are not \<^verbatim>\<open>Date\<close>; the close column is the first of \<^verbatim>\<open>Close\<close>, \<^verbatim>\<open>close\<close>,
  \<^verbatim>\<open>Adj Close\<close>, \<^verbatim>\<open>AdjClose\<close>, \<^verbatim>\<open>Adj_Close\<close> that is among them, and the first of them
  when none of the five is; the latest close of the snapshot is the last value of that
  column. The Horizon Matcher path does not resolve the close by name: the close of its
  summary is the third field of the latest data row when that field is present, not
  empty and a number, and the second field otherwise; \<open>prev_close\<close> is read from the
  matched row in the same way, from the third field when it is present and not empty
  and from the second field otherwise, without the fallback when the third field is not
  a number; and a header row that is not a data row does not change the result.
\<close>

theorem close_resolution:
  "(compute_indicators_from_csv fl (Some df) = Inr (Some s) \<longrightarrow>
      (\<exists>cols c cl. cols = filter (\<lambda>c. c \<noteq> ''Date'') (tl (df_columns df)) \<and>
         set_index_date df = Inr cols \<and>
         pick_close_col cols = Inr c \<and>
         ((\<exists>i<length close_names. c = close_names ! i \<and> c \<in> set cols \<and>
             (\<forall>j<i. close_names ! j \<notin> set cols)) \<or>
          ((\<forall>n\<in>set close_names. n \<notin> set cols) \<and> cols \<noteq> [] \<and> c = hd cols)) \<and>
         astype_float fl (column df c) = Inr cl \<and> s = indicators cl \<and>
         latest_close s = last cl)) \<and>
   (read_latest_from_csv fl (Some reader) duration = Inr (Some cs) \<longrightarrow>
      Some (close cs) =
        (let r = last (data_rows reader) in
         if 2 < length r \<and> r ! 2 \<noteq> [] \<and> fl (r ! 2) \<noteq> None then fl (r ! 2)
         else if 1 < length r then fl (r ! 1) else None) \<and>
      (\<exists>m d. scan_rows reader duration =
               Inr (Some (last (data_rows reader), Some (m, d))) \<and>
             prev_close cs =
               (if 2 < length m \<and> m ! 2 \<noteq> [] then fl (m ! 2)
                else if 1 < length m then fl (m ! 1) else None))) \<and>
   (\<not> looks_like_date h \<longrightarrow>
      read_latest_from_csv fl (Some (h # rows)) duration =
      read_latest_from_csv fl (Some rows) duration)"
proof (intro conjI impI)
  assume a: "compute_indicators_from_csv fl (Some df) = Inr (Some s)"
  then obtain cols c cl where
    x: "set_index_date df = Inr cols" "pick_close_col cols = Inr c"
      "astype_float fl (column df c) = Inr cl" "s = indicators cl"
    by (auto simp: compute_indicators_from_csv_def close_series_def
        split: if_splits sum.splits)
  have t: "cols = filter (\<lambda>c. c \<noteq> ''Date'') (tl (df_columns df))"
    using x(1) by (auto simp: set_index_date_def split: list.splits)
  have l: "latest_close s = last cl" using x(4) by (simp add: indicators_def)
  from pick_close_col_cases [OF x(2)] x t l
  show "\<exists>cols c cl. cols = filter (\<lambda>c. c \<noteq> ''Date'') (tl (df_columns df)) \<and>
         set_index_date df = Inr cols \<and>
         pick_close_col cols = Inr c \<and>
         ((\<exists>i<length close_names. c = close_names ! i \<and> c \<in> set cols \<and>
             (\<forall>j<i. close_names ! j \<notin> set cols)) \<or>
          ((\<forall>n\<in>set close_names. n \<notin> set cols) \<and> cols \<noteq> [] \<and> c = hd cols)) \<and>
         astype_float fl (column df c) = Inr cl \<and> s = indicators cl \<and>
         latest_close s = last cl"
    by blast
next
  assume "read_latest_from_csv fl (Some reader) duration = Inr (Some cs)"
  from read_latest_close [OF this]
  show "Some (close cs) =
        (let r = last (data_rows reader) in
         if 2 < length r \<and> r ! 2 \<noteq> [] \<and> fl (r ! 2) \<noteq> None then fl (r ! 2)
         else if 1 < length r then fl (r ! 1) else None)"
    by (simp add: last_close_positional Let_def)
next
  assume "read_latest_from_csv fl (Some reader) duration = Inr (Some cs)"
  from read_latest_prev_close [OF this]
  show "\<exists>m d. scan_rows reader duration =
               Inr (Some (last (data_rows reader), Some (m, d))) \<and>
             prev_close cs =
               (if 2 < length m \<and> m ! 2 \<noteq> [] then fl (m ! 2)
                else if 1 < length m then fl (m ! 1) else None)"
    by (simp add: row_close_positional)
next
  assume "\<not> looks_like_date h"
  then show "read_latest_from_csv fl (Some (h # rows)) duration =
      read_latest_from_csv fl (Some rows) duration"
    by (simp add: read_latest_from_csv_def scan_rows_def data_rows_header)
qed

text \<open>
  The claim as stated fails on the Horizon Matcher path: under the header
  \<^verbatim>\<open>Date,Open,High,Low,Close\<close> the policy of the specification reads the close 4 of
  the column \<^verbatim>\<open>Close\<close>, the code reads the third field, the high 2.
\<close>

theorem horizon_close_by_position_counterexample:
  "read_latest_from_csv float_dec
     (Some [[''Date'', ''Open'', ''High'', ''Low'', ''Close''],
            [''2024-01-08'', ''1'', ''2'', ''3'', ''4'']]) ''1d'' =
     Inr (Some \<lparr>date = ''2024-01-08'', close = 2, prev_close = Some 2, change_pct = Some 0\<rparr>) \<and>
   spec_close float_dec [''Date'', ''Open'', ''High'', ''Low'', ''Close'']
     [''2024-01-08'', ''1'', ''2'', ''3'', ''4''] = Some 4"
  by (simp add: csv_defs digit_of_def d0108 closest_loop_step row_dist_def row_date_def
      spec_close_def close_names_def)

lemma column_adj_close_frame:
  assumes "length dates = length closes"
  shows "column (adj_close_frame dates closes) ''Close'' = map Num closes"
proof -
  have "column (adj_close_frame dates closes) ''Close'' = map Num (map snd (zip dates closes))"
    by (simp add: column_def adj_close_frame_def cell_at_def case_prod_beta comp_def)
  then show ?thesis using assms by (simp only: map_snd_zip)
qed

lemma pick_adj_close: "pick_close_col [''Adj Close'', ''Close''] = Inr ''Close''"
  by (simp add: pick_close_col_def close_names_def)

lemma compute_adj_close_frame:
  assumes "length dates = length closes" "10 \<le> length closes"
  shows "compute_indicators_from_csv fl (Some (adj_close_frame dates closes)) =
           Inr (Some (indicators (map Some closes)))"
proof -
  have si: "set_index_date (adj_close_frame dates closes) = Inr [''Adj Close'', ''Close'']"
    by (simp add: set_index_date_def adj_close_frame_def)
  have sh: "shape0 (adj_close_frame dates closes) = length closes"
    using assms(1) by (simp add: shape0_def adj_close_frame_def)
  show ?thesis
    using assms(2)
    by (simp add: compute_indicators_from_csv_def sh close_series_def si pick_adj_close
        column_adj_close_frame [OF assms(1)] astype_float_Num)
qed

theorem close_resolution_witness:
  "(\<exists>cl. astype_float float_dec
           (column (adj_close_frame (take 10 jan_dates) [1, 2, 1, 1, 1, 1, 1, 1, 1, 8]) ''Close'') =
           Inr cl \<and>
         latest_close (indicators (map Some [1, 2, 1, 1, 1, 1, 1, 1, 1, 8])) = last cl \<and>
         last cl = Some 8) \<and>
   Some (close \<lparr>date = ''2024-01-08'', close = 2, prev_close = Some 2, change_pct = Some 0\<rparr>) =
     float_dec ([''2024-01-08'', ''1'', ''2'', ''3'', ''4''] ! 2) \<and>
   (\<exists>m d. scan_rows [[''Date'', ''Open'', ''High'', ''Low'', ''Close''],
                      [''2024-01-08'', ''1'', ''2'', ''3'', ''4'']] ''1d'' =
             Inr (Some ([''2024-01-08'', ''1'', ''2'', ''3'', ''4''], Some (m, d))) \<and>
           prev_close \<lparr>date = ''2024-01-08'', close = 2, prev_close = Some 2,
                       change_pct = Some 0\<rparr> =
             (if 2 < length m \<and> m ! 2 \<noteq> [] then float_dec (m ! 2)
              else if 1 < length m then float_dec (m ! 1) else None)) \<and>
   read_latest_from_csv float_dec
     (Some [[''Date'', ''Open'', ''High'', ''Low'', ''Close''],
            [''2024-01-08'', ''1'', ''2'', ''3'', ''4'']]) ''1d'' =
   read_latest_from_csv float_dec (Some [[''2024-01-08'', ''1'', ''2'', ''3'', ''4'']]) ''1d''"
proof -
  let ?df = "adj_close_frame (take 10 jan_dates) [1, 2, 1, 1, 1, 1, 1, 1, 1, 8]"
  let ?s = "indicators (map Some [1, 2, 1, 1, 1, 1, 1, 1, 1, 8])"
  let ?hdr = "[''Date'', ''Open'', ''High'', ''Low'', ''Close'']"
  let ?row = "[''2024-01-08'', ''1'', ''2'', ''3'', ''4'']"
  let ?cs = "\<lparr>date = ''2024-01-08'', close = 2, prev_close = Some 2, change_pct = Some 0\<rparr>"
  note inst = close_resolution [of float_dec ?df ?s "[?hdr, ?row]" "''1d''" ?cs ?hdr "[?row]"]
  have h1: "compute_indicators_from_csv float_dec (Some ?df) = Inr (Some ?s)"
    by (rule compute_adj_close_frame) (simp_all add: length_jan_dates)
  have h2: "read_latest_from_csv float_dec (Some [?hdr, ?row]) ''1d'' = Inr (Some ?cs)"
    by (simp add: csv_defs digit_of_def d0108 closest_loop_step row_dist_def row_date_def)
  have h3: "\<not> looks_like_date ?hdr"
    by (simp add: looks_like_date_def isdigit_def digit_of_def)
  have dr: "data_rows [?hdr, ?row] = [?row]"
    by (simp add: data_rows_def looks_like_date_def isdigit_def digit_of_def)
  have fd: "float_dec ''2'' = Some 2"
    by (simp add: float_dec_def isdigit_def digit_of_def)
  from inst h1 obtain cols c cl where
    a: "set_index_date ?df = Inr cols" "pick_close_col cols = Inr c"
      "astype_float float_dec (column ?df c) = Inr cl" "latest_close ?s = last cl"
    by blast
  have "cols = [''Adj Close'', ''Close'']"
    using a(1) by (simp add: set_index_date_def adj_close_frame_def)
  then have c: "c = ''Close''" using a(2) by (simp add: pick_adj_close)
  have cl: "cl = map Some [1, 2, 1, 1, 1, 1, 1, 1, 1, 8]"
    using a(3) unfolding c
    by (simp add: column_adj_close_frame length_jan_dates astype_float_Num)
  have p1: "\<exists>cl. astype_float float_dec (column ?df ''Close'') = Inr cl \<and>
         latest_close ?s = last cl \<and> last cl = Some 8"
    using a(3,4) c cl by auto
  have p2: "Some (close ?cs) = float_dec (?row ! 2)"
    using inst h2 by (simp add: dr fd)
  from inst h2 obtain m d where
    "scan_rows [?hdr, ?row] ''1d'' = Inr (Some (last (data_rows [?hdr, ?row]), Some (m, d)))"
    "prev_close ?cs =
       (if 2 < length m \<and> m ! 2 \<noteq> [] then float_dec (m ! 2)
        else if 1 < length m then float_dec (m ! 1) else None)"
    by blast
  then have p4: "\<exists>m d. scan_rows [?hdr, ?row] ''1d'' = Inr (Some (?row, Some (m, d))) \<and>
       prev_close ?cs =
         (if 2 < length m \<and> m ! 2 \<noteq> [] then float_dec (m ! 2)
          else if 1 < length m then float_dec (m ! 1) else None)"
    unfolding dr by (intro exI [of _ m] exI [of _ d]) simp
  have p3: "read_latest_from_csv float_dec (Some [?hdr, ?row]) ''1d'' =
      read_latest_from_csv float_dec (Some [?row]) ''1d''"
    using inst h3 by blast
  show ?thesis using p1 p2 p3 p4 by blast
qed

end
